theory Spec2Isabelle
  imports Main "HOL-Library.AList"
begin

section \<open>The data of \<^verbatim>\<open>patch_workflow_use_external_js.py\<close>\<close>

text \<open>
  The script reads a workflow export with \<^verbatim>\<open>json.load\<close>, so the document is an
  arbitrary JSON value as Python represents it: \<^verbatim>\<open>None\<close>, \<^verbatim>\<open>bool\<close>, \<^verbatim>\<open>int\<close>,
  \<^verbatim>\<open>float\<close>, \<^verbatim>\<open>str\<close>, \<^verbatim>\<open>list\<close> and \<^verbatim>\<open>dict\<close>. A \<^verbatim>\<open>dict\<close> keeps its keys in
  insertion order, so it is an association list; assignment to an existing key keeps
  the key's position and assignment to a new key appends (\<open>AList.update\<close>), and a
  lookup reads the first entry of the key (\<open>map_of\<close>). The values that
  \<^verbatim>\<open>json.load\<close> builds share no mutable object, so the script's in-place mutation of a
  node is the functional update of the tree.

  A float is only ever tested for truth by the script; it is kept as sign, mantissa and
  binary exponent, with the two infinities and NaN that \<^verbatim>\<open>json.load\<close> accepts.
\<close>

datatype pyfloat = Finite bool nat int | Infinity bool | NaN

datatype json =
    JNull
  | JBool bool
  | JInt int
  | JFloat pyfloat
  | JStr string
  | JArr "json list"
  | JObj "(string \<times> json) list"

text \<open>The exceptions that reach the top level of the script uncaught.\<close>

datatype py_exc = AttributeError | TypeError | JSONDecodeError | UnicodeDecodeError | OSError

text \<open>Python's truth value of an object, as \<^verbatim>\<open>not nid\<close> tests it.\<close>

fun truthy :: "json \<Rightarrow> bool" where
  "truthy JNull = False"
| "truthy (JBool b) = b"
| "truthy (JInt i) = (i \<noteq> 0)"
| "truthy (JFloat (Finite s m e)) = (m \<noteq> 0)"
| "truthy (JFloat (Infinity s)) = True"
| "truthy (JFloat NaN) = True"
| "truthy (JStr s) = (s \<noteq> [])"
| "truthy (JArr xs) = (xs \<noteq> [])"
| "truthy (JObj d) = (d \<noteq> [])"

text \<open>
  \<^verbatim>\<open>obj.get(key, default)\<close>: only a \<^verbatim>\<open>dict\<close> has the method; on any other JSON value
  the attribute lookup raises \<^verbatim>\<open>AttributeError\<close>.
\<close>

fun py_get :: "json \<Rightarrow> string \<Rightarrow> json \<Rightarrow> py_exc + json" where
  "py_get (JObj d) k dflt = Inr (case map_of d k of None \<Rightarrow> dflt | Some v \<Rightarrow> v)"
| "py_get _ k dflt = Inl AttributeError"

text \<open>
  \<^verbatim>\<open>mapping.get(nid)\<close> on the file mapping, whose keys are strings: a \<^verbatim>\<open>list\<close> or a
  \<^verbatim>\<open>dict\<close> is unhashable (\<^verbatim>\<open>TypeError\<close>); any other non-string is hashable and equal to
  no key.
\<close>

fun mapping_get :: "(string \<times> string) list \<Rightarrow> json \<Rightarrow> py_exc + string option" where
  "mapping_get mapping (JStr k) = Inr (map_of mapping k)"
| "mapping_get mapping (JArr xs) = Inl TypeError"
| "mapping_get mapping (JObj d) = Inl TypeError"
| "mapping_get mapping _ = Inr None"

text \<open>
  \<^verbatim>\<open>d.setdefault(k, default)\<close> returns the value under \<open>k\<close>, inserting the default at
  the end when the key is absent. \<^verbatim>\<open>obj[k] = v\<close> with a string key succeeds on a
  \<^verbatim>\<open>dict\<close> only; every other JSON value raises \<^verbatim>\<open>TypeError\<close>.
\<close>

definition setdefault :: "(string \<times> json) list \<Rightarrow> string \<Rightarrow> json \<Rightarrow> (string \<times> json) list \<times> json" where
  "setdefault d k dflt = (case map_of d k of None \<Rightarrow> (d @ [(k, dflt)], dflt) | Some v \<Rightarrow> (d, v))"

fun setitem :: "json \<Rightarrow> string \<Rightarrow> json \<Rightarrow> py_exc + json" where
  "setitem (JObj d) k v = Inr (JObj (AList.update k v d))"
| "setitem _ k v = Inl TypeError"

section \<open>The file system\<close>

text \<open>
  The file system as one run meets it, a parameter of the model. \<open>path_exists\<close>,
  \<open>path_isdir\<close> and \<open>path_isfile\<close> are \<^verbatim>\<open>os.path.exists\<close>, \<^verbatim>\<open>os.path.isdir\<close> and
  \<^verbatim>\<open>os.path.isfile\<close> (the script never asks the last one; it is here to tell a file from
  a sub-directory). \<open>scandir d\<close> is the list of the entry names of directory \<open>d\<close>, files
  and sub-directories alike, in listing order, and the empty list when \<open>d\<close> cannot be
  listed. \<open>glob_dirs pat\<close> is the list of directories that \<^verbatim>\<open>glob\<close> finds for a
  directory pattern \<open>pat\<close> holding a metacharacter. \<open>load_json p\<close> is the result of
  \<^verbatim>\<open>open(p)\<close> and \<^verbatim>\<open>json.load\<close>: the parsed value, or the exception raised when the file
  cannot be read or is malformed. \<open>makedirs d\<close> is \<^verbatim>\<open>os.makedirs(d, exist_ok=True)\<close> and
  \<open>write_json p\<close> is \<^verbatim>\<open>open(p, "w")\<close> followed by \<^verbatim>\<open>json.dump\<close>: \<open>None\<close> when they
  succeed, else the exception they raise.
\<close>

record env =
  path_exists :: "string \<Rightarrow> bool"
  path_isdir :: "string \<Rightarrow> bool"
  path_isfile :: "string \<Rightarrow> bool"
  scandir :: "string \<Rightarrow> string list"
  glob_dirs :: "string \<Rightarrow> string list"
  load_json :: "string \<Rightarrow> py_exc + json"
  makedirs :: "string \<Rightarrow> py_exc option"
  write_json :: "string \<Rightarrow> py_exc option"

section \<open>The mapping builder\<close>

text \<open>
  \<^verbatim>\<open>posixpath.join\<close> of two components, \<^verbatim>\<open>posixpath.basename\<close>, and the first
  component of \<^verbatim>\<open>posixpath.split\<close>: the path up to its last slash, without the slashes
  at its end unless it consists of slashes only.
\<close>

definition posix_join :: "string \<Rightarrow> string \<Rightarrow> string" where
  "posix_join a b =
     (if b \<noteq> [] \<and> hd b = CHR ''/'' then b
      else if a = [] \<or> last a = CHR ''/'' then a @ b
      else a @ ''/'' @ b)"

definition posix_basename :: "string \<Rightarrow> string" where
  "posix_basename p = rev (takeWhile (\<lambda>c. c \<noteq> CHR ''/'') (rev p))"

definition posix_split_head :: "string \<Rightarrow> string" where
  "posix_split_head p =
     (let head = rev (dropWhile (\<lambda>c. c \<noteq> CHR ''/'') (rev p)) in
      if head \<noteq> [] \<and> head \<noteq> replicate (length head) (CHR ''/'')
      then rev (dropWhile (\<lambda>c. c = CHR ''/'') (rev head))
      else head)"

text \<open>
  \<^verbatim>\<open>glob.glob(os.path.join(js_dir, "*.js"))\<close>. The pattern is split into its directory
  part (\<open>glob_dirname\<close>) and \<^verbatim>\<open>*.js\<close>. A directory part without metacharacter
  (\<^verbatim>\<open>*\<close>, \<^verbatim>\<open>?\<close>, \<^verbatim>\<open>[\<close>) is scanned as it is; one with a metacharacter is itself a
  pattern, and the directories it matches are scanned instead, one after the other.
  A scan is not recursive. It drops the names that begin with a dot, because the
  pattern does not begin with one (\<^verbatim>\<open>glob._ishidden\<close>), and keeps the names that
  \<^verbatim>\<open>fnmatch\<close> matches against \<^verbatim>\<open>*.js\<close>, that is the names that end in \<^verbatim>\<open>.js\<close>,
  whether they name a file or a sub-directory. Each result is the scanned directory
  joined with the name, in the order of the scan.
\<close>

definition has_magic :: "string \<Rightarrow> bool" where
  "has_magic s = list_ex (\<lambda>c. c = CHR ''*'' \<or> c = CHR ''?'' \<or> c = CHR ''['') s"

definition ishidden :: "string \<Rightarrow> bool" where
  "ishidden name = (case name of [] \<Rightarrow> False | c # cs \<Rightarrow> c = CHR ''.'')"

definition fnmatch_star_js :: "string \<Rightarrow> bool" where
  "fnmatch_star_js name = (3 \<le> length name \<and> drop (length name - 3) name = ''.js'')"

definition glob_dirname :: "string \<Rightarrow> string" where
  "glob_dirname js_dir = posix_split_head (posix_join js_dir ''*.js'')"

definition glob1_js :: "env \<Rightarrow> string \<Rightarrow> string list" where
  "glob1_js fs dirname =
     filter (\<lambda>name. \<not> ishidden name \<and> fnmatch_star_js name) (scandir fs dirname)"

definition glob_js :: "env \<Rightarrow> string \<Rightarrow> string list" where
  "glob_js fs js_dir =
     (let dirname = glob_dirname js_dir;
          dirs = (if has_magic dirname then glob_dirs fs dirname else [dirname])
      in concat (map (\<lambda>d. map (posix_join d) (glob1_js fs d)) dirs))"

text \<open>
  \<^verbatim>\<open>re.search(r"__([0-9a-fA-F-]{36})\.js$", base)\<close>. \<open>match_here\<close> is the match of
  the pattern at the first position of its argument and returns group 1; \<^verbatim>\<open>$\<close>
  (no MULTILINE flag) matches at the end of the string and before a newline that ends
  the string. \<open>re_search\<close> tries the positions from left to right.
\<close>

definition uuid_char :: "char \<Rightarrow> bool" where
  "uuid_char c = (c \<in> set ''0123456789abcdefABCDEF-'')"

definition at_end :: "string \<Rightarrow> bool" where
  "at_end r = (r = [] \<or> r = [CHR 0x0A])"

definition match_here :: "string \<Rightarrow> string option" where
  "match_here s =
     (if take 2 s = ''__'' then
        (let g = take 36 (drop 2 s); rest = drop 38 s in
         if length g = 36 \<and> list_all uuid_char g \<and> take 3 rest = ''.js'' \<and> at_end (drop 3 rest)
         then Some g else None)
      else None)"

fun re_search :: "string \<Rightarrow> string option" where
  "re_search [] = match_here []"
| "re_search (c # cs) =
     (case match_here (c # cs) of Some g \<Rightarrow> Some g | None \<Rightarrow> re_search cs)"

text \<open>
  The loop that fills \<^verbatim>\<open>mapping\<close>: a later file with the same node id overwrites the
  earlier one.
\<close>

fun build_mapping :: "string list \<Rightarrow> (string \<times> string) list \<Rightarrow> (string \<times> string) list" where
  "build_mapping [] mapping = mapping"
| "build_mapping (p # ps) mapping =
     (let base = posix_basename p in
      case re_search base of
        None \<Rightarrow> build_mapping ps mapping
      | Some node_id \<Rightarrow> build_mapping ps (AList.update node_id base mapping))"

section \<open>The patcher\<close>

record counters =
  total_patched :: int
  total_skipped :: int

text \<open>The three adjacent f-strings of \<^verbatim>\<open>wrapper\<close>, concatenated.\<close>

definition wrapper :: "string \<Rightarrow> string \<Rightarrow> string" where
  "wrapper workflow_slug fn =
     ''try{const fn=require('' @ [CHR 0x27] @ ''/data/js/workflows/'' @ workflow_slug @ ''/'' @ fn
       @ [CHR 0x27] @ '');''
     @ ''return await fn({$input,$json,$items,$node,$env,helpers});}''
     @ ''catch(e){e.message=`[extjs:'' @ workflow_slug @ ''/'' @ fn
       @ ''] ${e.message}`;throw e;}''"

text \<open>
  \<^verbatim>\<open>n.setdefault("parameters", {})["jsCode"] = wrapper\<close>: the object returned by
  \<^verbatim>\<open>setdefault\<close> is the one stored in the node, so the assignment is seen through the
  node's \<^verbatim>\<open>parameters\<close> entry.
\<close>

definition set_jsCode :: "(string \<times> json) list \<Rightarrow> string \<Rightarrow> py_exc + (string \<times> json) list" where
  "set_jsCode d w =
     (case setdefault d ''parameters'' (JObj []) of
        (d1, params) \<Rightarrow>
          (case setitem params ''jsCode'' (JStr w) of
             Inl e \<Rightarrow> Inl e
           | Inr params' \<Rightarrow> Inr (AList.update ''parameters'' params' d1)))"

text \<open>One iteration of the inner loop, on node \<open>n\<close> with the counters \<open>c\<close>.\<close>

definition skipped :: "json \<Rightarrow> counters \<Rightarrow> py_exc + json \<times> counters" where
  "skipped n c = Inr (n, c\<lparr>total_skipped := total_skipped c + 1\<rparr>)"

definition patch_node ::
  "(string \<times> string) list \<Rightarrow> string \<Rightarrow> json \<Rightarrow> counters \<Rightarrow> py_exc + json \<times> counters" where
  "patch_node mapping workflow_slug n c =
     (case py_get n ''type'' JNull of
        Inl e \<Rightarrow> Inl e
      | Inr ty \<Rightarrow>
          if ty \<noteq> JStr ''n8n-nodes-base.code'' then Inr (n, c)
          else
            (case py_get n ''id'' JNull of
               Inl e \<Rightarrow> Inl e
             | Inr nid \<Rightarrow>
                 if \<not> truthy nid then skipped n c
                 else
                   (case mapping_get mapping nid of
                      Inl e \<Rightarrow> Inl e
                    | Inr None \<Rightarrow> skipped n c
                    | Inr (Some fn) \<Rightarrow>
                        if fn = [] then skipped n c
                        else
                          (case n of
                             JObj d \<Rightarrow>
                               (case set_jsCode d (wrapper workflow_slug fn) of
                                  Inl e \<Rightarrow> Inl e
                                | Inr d' \<Rightarrow>
                                    Inr (JObj d', c\<lparr>total_patched := total_patched c + 1\<rparr>))
                           | _ \<Rightarrow> Inl AttributeError))))"

text \<open>\<^verbatim>\<open>for n in nodes\<close> over the elements of a list, left to right.\<close>

fun patch_nodes ::
  "(string \<times> string) list \<Rightarrow> string \<Rightarrow> json list \<Rightarrow> counters \<Rightarrow> py_exc + json list \<times> counters" where
  "patch_nodes mapping workflow_slug [] c = Inr ([], c)"
| "patch_nodes mapping workflow_slug (n # ns) c =
     (case patch_node mapping workflow_slug n c of
        Inl e \<Rightarrow> Inl e
      | Inr (n', c') \<Rightarrow>
          (case patch_nodes mapping workflow_slug ns c' of
             Inl e \<Rightarrow> Inl e
           | Inr (ns', c'') \<Rightarrow> Inr (n' # ns', c'')))"

text \<open>
  The body of the outer loop. \<^verbatim>\<open>wf.get("nodes", [])\<close> is the stored value or a fresh
  empty list that is not attached to the workflow. The \<^verbatim>\<open>for\<close> statement iterates a
  list by its elements, a string by its characters and a dict by its keys (every such
  element is a \<^verbatim>\<open>str\<close>, on which \<^verbatim>\<open>n.get\<close> raises); any other value is not iterable.
  The patched nodes live in the list stored under \<^verbatim>\<open>nodes\<close>.
\<close>

definition store_nodes :: "json \<Rightarrow> json list \<Rightarrow> json" where
  "store_nodes w ns' =
     (case w of
        JObj d \<Rightarrow>
          (case map_of d ''nodes'' of
             None \<Rightarrow> w
           | Some v \<Rightarrow> JObj (AList.update ''nodes'' (JArr ns') d))
      | _ \<Rightarrow> w)"

definition patch_workflow ::
  "(string \<times> string) list \<Rightarrow> string \<Rightarrow> json \<Rightarrow> counters \<Rightarrow> py_exc + json \<times> counters" where
  "patch_workflow mapping workflow_slug w c =
     (case py_get w ''nodes'' (JArr []) of
        Inl e \<Rightarrow> Inl e
      | Inr nodes \<Rightarrow>
          (case nodes of
             JArr ns \<Rightarrow>
               (case patch_nodes mapping workflow_slug ns c of
                  Inl e \<Rightarrow> Inl e
                | Inr (ns', c') \<Rightarrow> Inr (store_nodes w ns', c'))
           | JStr s \<Rightarrow>
               (case patch_nodes mapping workflow_slug (map (\<lambda>ch. JStr [ch]) s) c of
                  Inl e \<Rightarrow> Inl e
                | Inr (ns', c') \<Rightarrow> Inr (w, c'))
           | JObj d \<Rightarrow>
               (case patch_nodes mapping workflow_slug (map (\<lambda>kv. JStr (fst kv)) d) c of
                  Inl e \<Rightarrow> Inl e
                | Inr (ns', c') \<Rightarrow> Inr (w, c'))
           | _ \<Rightarrow> Inl TypeError))"

fun patch_workflows ::
  "(string \<times> string) list \<Rightarrow> string \<Rightarrow> json list \<Rightarrow> counters \<Rightarrow> py_exc + json list \<times> counters" where
  "patch_workflows mapping workflow_slug [] c = Inr ([], c)"
| "patch_workflows mapping workflow_slug (w # ws) c =
     (case patch_workflow mapping workflow_slug w c of
        Inl e \<Rightarrow> Inl e
      | Inr (w', c') \<Rightarrow>
          (case patch_workflows mapping workflow_slug ws c' of
             Inl e \<Rightarrow> Inl e
           | Inr (ws', c'') \<Rightarrow> Inr (w' # ws', c'')))"

text \<open>
  \<^verbatim>\<open>workflows = data if isinstance(data, list) else [data]\<close>, the two counters set to
  zero, and the double loop. The result is \<^verbatim>\<open>data\<close> after the mutation: the list of the
  patched workflows when the root is a list, else the patched root itself.
\<close>

definition workflows :: "json \<Rightarrow> json list" where
  "workflows data = (case data of JArr ws \<Rightarrow> ws | _ \<Rightarrow> [data])"

definition patch_document ::
  "(string \<times> string) list \<Rightarrow> string \<Rightarrow> json \<Rightarrow> py_exc + json \<times> counters" where
  "patch_document mapping workflow_slug data =
     (case patch_workflows mapping workflow_slug (workflows data)
             \<lparr>total_patched = 0, total_skipped = 0\<rparr> of
        Inl e \<Rightarrow> Inl e
      | Inr (ws', c) \<Rightarrow>
          Inr (case data of
                 JArr ws \<Rightarrow> JArr ws'
               | _ \<Rightarrow> (case ws' of [w] \<Rightarrow> w | _ \<Rightarrow> data),
               c))"

section \<open>The script from top to bottom\<close>

text \<open>
  What one run does to the outside world, in program order. \<open>Stderr\<close> and \<open>Stdout\<close>
  are the lines the script prints itself; \<open>ListDir\<close> is the directory scan of
  \<^verbatim>\<open>glob.glob\<close>, \<open>ReadFile\<close> the \<^verbatim>\<open>open\<close> and \<^verbatim>\<open>json.load\<close> of the workflow file,
  \<open>MakeDirs\<close> and \<open>WriteFile\<close> the creation of \<^verbatim>\<open>tmp\<close> and the \<^verbatim>\<open>json.dump\<close> of
  the document into the output file, each recorded when it has succeeded. \<open>Uncaught\<close> is an exception that no handler
  catches: the interpreter prints its traceback on the error stream and the process
  ends with status 1.
\<close>

datatype event =
    Stderr string
  | Stdout string
  | ListDir string
  | ReadFile string
  | MakeDirs string
  | WriteFile string json
  | Uncaught py_exc

record outcome =
  events :: "event list"
  exit_status :: nat

text \<open>\<^verbatim>\<open>die(msg)\<close> after the events \<open>done\<close>: one line on the error stream, then \<^verbatim>\<open>sys.exit(1)\<close>.\<close>

definition die :: "event list \<Rightarrow> string \<Rightarrow> outcome" where
  "die done msg = \<lparr>events = done @ [Stderr msg], exit_status = 1\<rparr>"

definition uncaught :: "event list \<Rightarrow> py_exc \<Rightarrow> outcome" where
  "uncaught done e = \<lparr>events = done @ [Uncaught e], exit_status = 1\<rparr>"

text \<open>The decimal text of an integer, as an f-string formats it.\<close>

fun decimal :: "nat \<Rightarrow> string" where
  "decimal n =
     (if n < 10 then [''0123456789'' ! n]
      else decimal (n div 10) @ [''0123456789'' ! (n mod 10)])"

definition str_int :: "int \<Rightarrow> string" where
  "str_int i = (if i < 0 then CHR ''-'' # decimal (nat (- i)) else decimal (nat i))"

definition usage :: string where
  "usage = ''Usage: patch_workflow_use_external_js.py <workflow_json> <js_dir> <workflow_slug>''"

definition out_path :: "string \<Rightarrow> string" where
  "out_path workflow_slug = posix_join ''tmp'' (workflow_slug @ ''.raw.externalized.json'')"

definition main :: "env \<Rightarrow> string list \<Rightarrow> outcome" where
  "main fs argv =
     (if length argv \<noteq> 4 then die [] usage
      else
        (let wf_path = argv ! 1; js_dir = argv ! 2; workflow_slug = argv ! 3 in
         if \<not> path_exists fs wf_path then die [] (''Missing workflow json: '' @ wf_path)
         else if \<not> path_isdir fs js_dir then die [] (''Missing js dir: '' @ js_dir)
         else
           (let mapping = build_mapping (glob_js fs js_dir) [] in
            if mapping = [] then
              die [ListDir js_dir] (''No node-id mapped js files found in '' @ js_dir)
            else
              (case load_json fs wf_path of
                 Inl e \<Rightarrow> uncaught [ListDir js_dir, ReadFile wf_path] e
               | Inr data \<Rightarrow>
                   (case patch_document mapping workflow_slug data of
                      Inl e \<Rightarrow> uncaught [ListDir js_dir, ReadFile wf_path] e
                    | Inr (data', c) \<Rightarrow>
                        (case makedirs fs ''tmp'' of
                           Some e \<Rightarrow> uncaught [ListDir js_dir, ReadFile wf_path] e
                         | None \<Rightarrow>
                             (case write_json fs (out_path workflow_slug) of
                                Some e \<Rightarrow>
                                  uncaught [ListDir js_dir, ReadFile wf_path, MakeDirs ''tmp''] e
                              | None \<Rightarrow>
                                  \<lparr>events =
                                     [ListDir js_dir, ReadFile wf_path,
                                      MakeDirs ''tmp'',
                                      WriteFile (out_path workflow_slug) data',
                                      Stdout (''Patched code nodes: ''
                                              @ str_int (total_patched c)
                                              @ '', skipped: '' @ str_int (total_skipped c)),
                                      Stdout (''Wrote: '' @ out_path workflow_slug)],
                                   exit_status = 0\<rparr>)))))))"

section \<open>Vocabulary of the statements\<close>

text \<open>
  The properties below speak of the workflows of a document, the nodes of a workflow, a
  node of the code-node type and the \<^verbatim>\<open>parameters.jsCode\<close> field of a node. These
  selectors read a JSON value; none of them is part of the script, and none of them is
  defined through a function of the script.

  \<open>document_workflows\<close> follows the data model of the specification: a workflow
  document is either a single workflow, a JSON object, or an ordered sequence of
  workflows, a JSON array. \<open>nodes_of\<close> is the sequence stored in the \<^verbatim>\<open>nodes\<close> field of
  a workflow, empty when there is none.
\<close>

definition document_workflows :: "json \<Rightarrow> json list" where
  "document_workflows data =
     (case data of JArr ws \<Rightarrow> ws | JObj d \<Rightarrow> [JObj d] | _ \<Rightarrow> [])"

fun is_list :: "json \<Rightarrow> bool" where
  "is_list (JArr ws) = True"
| "is_list _ = False"

fun is_dict :: "json \<Rightarrow> bool" where
  "is_dict (JObj d) = True"
| "is_dict _ = False"

fun fields :: "json \<Rightarrow> (string \<times> json) list" where
  "fields (JObj d) = d"
| "fields _ = []"

definition code_type :: "json \<Rightarrow> bool" where
  "code_type n = (case n of JObj d \<Rightarrow> map_of d ''type'' = Some (JStr ''n8n-nodes-base.code'') | _ \<Rightarrow> False)"

definition nodes_of :: "json \<Rightarrow> json list" where
  "nodes_of w = (case map_of (fields w) ''nodes'' of Some (JArr ns) \<Rightarrow> ns | _ \<Rightarrow> [])"

definition params_of :: "(string \<times> json) list \<Rightarrow> (string \<times> json) list" where
  "params_of d = (case map_of d ''parameters'' of Some (JObj ps) \<Rightarrow> ps | _ \<Rightarrow> [])"

definition jsCode_of :: "json \<Rightarrow> json option" where
  "jsCode_of n = (case map_of (fields n) ''parameters'' of Some (JObj ps) \<Rightarrow> map_of ps ''jsCode'' | _ \<Rightarrow> None)"

text \<open>The files a run has written, with their contents, in order.\<close>

definition written :: "outcome \<Rightarrow> (string \<times> json) list" where
  "written r = concat (map (\<lambda>e. case e of WriteFile p d \<Rightarrow> [(p, d)] | _ \<Rightarrow> []) (events r))"

text \<open>
  \<open>assigned k d d'\<close>: the dict \<open>d'\<close> is \<open>d\<close> after an assignment to key \<open>k\<close>. Every
  entry under another key is the one of \<open>d\<close>, the keys keep their order, and \<open>k\<close> is
  appended when \<open>d\<close> does not have it.
\<close>

definition assigned :: "string \<Rightarrow> (string \<times> json) list \<Rightarrow> (string \<times> json) list \<Rightarrow> bool" where
  "assigned k d d' \<longleftrightarrow>
     AList.delete k d' = AList.delete k d \<and>
     map fst d' = (if k \<in> set (map fst d) then map fst d else map fst d @ [k])"

text \<open>
  The file-name convention in the words of the specification: a name that ends with two
  underscores, a token of 36 characters that are hexadecimal digits or hyphens, and
  \<^verbatim>\<open>.js\<close>. \<open>uuid_js_token\<close> returns the token of such a name.
\<close>

definition uuid_js_token :: "string \<Rightarrow> string option" where
  "uuid_js_token name =
     (let n = length name; token = take 36 (drop (n - 39) name) in
      if 41 \<le> n \<and> take 2 (drop (n - 41) name) = ''__'' \<and> list_all uuid_char token
         \<and> drop (n - 3) name = ''.js''
      then Some token else None)"

section \<open>A worked example\<close>

text \<open>
  A JS directory with two files for the same node id, a hidden file, and two files
  outside the convention; a document of two workflows, the first with a code node that
  has a file, a code node that has none and a node of another type, the second without
  a \<^verbatim>\<open>nodes\<close> key; the document the script writes for it; and a document that is a
  single workflow object, with the document written for it.
\<close>

definition ex_id1 :: string where "ex_id1 = ''11111111-1111-1111-1111-111111111111''"

definition ex_id2 :: string where "ex_id2 = ''22222222-2222-2222-2222-222222222222''"

definition ex_file :: string where "ex_file = ''build-sql__11111111-1111-1111-1111-111111111111.js''"

definition ex_hidden :: string where "ex_hidden = ''.hid__22222222-2222-2222-2222-222222222222.js''"

definition ex_listing :: "string \<Rightarrow> string list" where
  "ex_listing d =
     (if d = ''js''
      then [''old__11111111-1111-1111-1111-111111111111.js'', ex_file, ex_hidden, ''notes.txt'', ''x.js'']
      else [])"

definition ex_mapping :: "(string \<times> string) list" where
  "ex_mapping = [(ex_id1, ex_file)]"

definition ex_code :: json where "ex_code = JStr ''n8n-nodes-base.code''"

definition ex_mapped :: "(string \<times> json) list" where
  "ex_mapped = [(''type'', ex_code), (''id'', JStr ex_id1), (''name'', JStr ''Build SQL'')]"

definition ex_unmapped :: "(string \<times> json) list" where
  "ex_unmapped = [(''parameters'', JObj [(''jsCode'', JStr ''return 1;'')]), (''type'', ex_code),
                  (''id'', JStr ex_id2)]"

definition ex_other :: "(string \<times> json) list" where
  "ex_other = [(''type'', JStr ''n8n-nodes-base.set''), (''id'', JStr ex_id1)]"

definition ex_patched :: "(string \<times> json) list" where
  "ex_patched = [(''type'', ex_code), (''id'', JStr ex_id1), (''name'', JStr ''Build SQL''),
                 (''parameters'', JObj [(''jsCode'', JStr (wrapper ''slug'' ex_file))])]"

definition ex_bare :: "(string \<times> json) list" where
  "ex_bare = [(''name'', JStr ''empty workflow'')]"

definition ex_data :: json where
  "ex_data = JArr [JObj [(''name'', JStr ''w1''),
                         (''nodes'', JArr [JObj ex_mapped, JObj ex_unmapped, JObj ex_other])],
                   JObj ex_bare]"

definition ex_single :: json where
  "ex_single = JObj [(''nodes'', JArr [JObj ex_other, JObj ex_mapped, JObj ex_unmapped]),
                     (''name'', JStr ''single'')]"

definition ex_single_out :: json where
  "ex_single_out = JObj [(''nodes'', JArr [JObj ex_other, JObj ex_patched, JObj ex_unmapped]),
                         (''name'', JStr ''single'')]"

definition ex_out :: json where
  "ex_out = JArr [JObj [(''name'', JStr ''w1''),
                        (''nodes'', JArr [JObj ex_patched, JObj ex_unmapped, JObj ex_other])],
                  JObj ex_bare]"

definition ex_fs :: env where
  "ex_fs = \<lparr>path_exists = (\<lambda>p. p = ''wf.json''), path_isdir = (\<lambda>p. p = ''js''),
            path_isfile = (\<lambda>p. p = ''wf.json''),
            scandir = ex_listing, glob_dirs = (\<lambda>pat. []),
            load_json = (\<lambda>p. Inr ex_data),
            makedirs = (\<lambda>d. None), write_json = (\<lambda>p. None)\<rparr>"

definition ex_argv :: "string list" where
  "ex_argv = [''patch_workflow_use_external_js.py'', ''wf.json'', ''js'', ''slug'']"

text \<open>
  More file systems: the one after the first run, where the workflow path is the output
  file and holds the output document; one where the workflow file is not valid JSON;
  one whose JS directory has no entry of the convention; one where the JS directory is
  named \<^verbatim>\<open>j[s]\<close> and holds no file of the convention, beside a directory \<^verbatim>\<open>js\<close> that
  holds one; and one whose JS directory holds nothing but a sub-directory named after
  the convention.
\<close>

definition ex_fs2 :: env where
  "ex_fs2 = ex_fs\<lparr>path_exists := (\<lambda>p. p = ''tmp/slug.raw.externalized.json''),
                   load_json := (\<lambda>p. Inr ex_out)\<rparr>"

definition ex_bad_fs :: env where
  "ex_bad_fs = ex_fs\<lparr>load_json := (\<lambda>p. Inl JSONDecodeError)\<rparr>"

definition ex_empty_fs :: env where
  "ex_empty_fs = ex_fs\<lparr>scandir := (\<lambda>d. [''notes.txt'', ''x.js''])\<rparr>"

definition ex_magic_fs :: env where
  "ex_magic_fs =
     ex_fs\<lparr>path_isdir := (\<lambda>p. p = ''j[s]'' \<or> p = ''js''),
           scandir := (\<lambda>d. if d = ''js'' then [ex_file]
                             else if d = ''j[s]'' then [''notes.txt''] else []),
           glob_dirs := (\<lambda>pat. if pat = ''j[s]'' then [''js''] else [])\<rparr>"

definition ex_subdir :: string where
  "ex_subdir = ''sub__33333333-3333-3333-3333-333333333333.js''"

definition ex_id3 :: string where "ex_id3 = ''33333333-3333-3333-3333-333333333333''"

definition ex_subdir_fs :: env where
  "ex_subdir_fs = ex_fs\<lparr>scandir := (\<lambda>d. if d = ''js'' then [ex_subdir] else [])\<rparr>"

section \<open>Auxiliary facts\<close>

subsection \<open>The node step\<close>

text \<open>
  What one iteration of the inner loop can do: leave a node of another type alone, skip a
  code node, or patch it. Patching is an assignment to \<^verbatim>\<open>parameters\<close> whose new value
  is the old dict after an assignment to \<^verbatim>\<open>jsCode\<close>; done again, it changes nothing.
\<close>

lemma patch_node_dict: "patch_node m s n c = Inr (n', c') \<Longrightarrow> \<exists>d d'. n = JObj d \<and> n' = JObj d'"
  by (cases n) (auto simp: patch_node_def skipped_def split: if_splits sum.splits option.splits)

lemma patch_node_noncode:
  "\<not> code_type (JObj d) \<Longrightarrow> patch_node m s (JObj d) c = Inr (JObj d, c)"
  by (auto simp: patch_node_def code_type_def split: option.splits)

lemma patch_node_counters:
  assumes "patch_node m s n c = Inr (n', c')"
  shows "total_patched c' + total_skipped c' =
         total_patched c + total_skipped c + (if code_type n then 1 else 0)"
  using assms
  by (cases n) (auto simp: patch_node_def skipped_def code_type_def split: if_splits sum.splits option.splits)

lemma update_absent_append:
  "map_of d k = None \<Longrightarrow> AList.update k v (d @ [(k, u)]) = AList.update k v d"
  by (induction d) (auto split: if_splits)

lemma set_jsCode_Inr:
  assumes "set_jsCode d w = Inr d'"
  shows "d' = AList.update ''parameters'' (JObj (AList.update ''jsCode'' (JStr w) (params_of d))) d"
    and "map_of d ''parameters'' = None \<or> map_of d ''parameters'' = Some (JObj (params_of d))"
proof -
  show "map_of d ''parameters'' = None \<or> map_of d ''parameters'' = Some (JObj (params_of d))"
  proof (cases "map_of d ''parameters''")
    case None
    then show ?thesis by simp
  next
    case (Some v)
    with assms obtain ps where "v = JObj ps"
      by (cases v) (auto simp: set_jsCode_def setdefault_def)
    with Some show ?thesis by (simp add: params_of_def)
  qed
  show "d' = AList.update ''parameters'' (JObj (AList.update ''jsCode'' (JStr w) (params_of d))) d"
  proof (cases "map_of d ''parameters''")
    case None
    with assms show ?thesis
      by (simp add: set_jsCode_def setdefault_def params_of_def update_absent_append)
  next
    case (Some v)
    with assms obtain ps where "v = JObj ps"
      by (cases v) (auto simp: set_jsCode_def setdefault_def)
    with Some assms show ?thesis
      by (auto simp: set_jsCode_def setdefault_def params_of_def)
  qed
qed

lemma set_jsCode_again:
  assumes "set_jsCode d w = Inr d'"
  shows "set_jsCode d' w = Inr d'"
proof -
  let ?ps' = "AList.update ''jsCode'' (JStr w) (params_of d)"
  have d': "d' = AList.update ''parameters'' (JObj ?ps') d"
    by (rule set_jsCode_Inr(1)[OF assms])
  then have look: "map_of d' ''parameters'' = Some (JObj ?ps')"
    by (simp add: update_conv')
  have "AList.update ''jsCode'' (JStr w) ?ps' = ?ps'"
    by (simp add: update_last)
  moreover have "AList.update ''parameters'' (JObj ?ps') d' = d'"
    using look by (rule update_triv)
  ultimately show ?thesis
    using look by (simp add: set_jsCode_def setdefault_def)
qed

lemma patch_node_cases:
  assumes "patch_node m s n c = Inr (n', c')"
  obtains
    (other) d where "n = JObj d" "\<not> code_type n" "n' = n" "c' = c"
  | (skip) d where "n = JObj d" "code_type n" "n' = n"
      "c' = c\<lparr>total_skipped := total_skipped c + 1\<rparr>"
      "\<And>k. map_of d ''id'' = Some (JStr k) \<Longrightarrow> k = [] \<or> map_of m k = None \<or> map_of m k = Some []"
  | (patch) d k fn d' where "n = JObj d" "code_type n" "map_of d ''id'' = Some (JStr k)" "k \<noteq> []"
      "map_of m k = Some fn" "fn \<noteq> []" "set_jsCode d (wrapper s fn) = Inr d'" "n' = JObj d'"
      "c' = c\<lparr>total_patched := total_patched c + 1\<rparr>"
proof -
  from assms obtain d where n: "n = JObj d" using patch_node_dict by blast
  show thesis
  proof (cases "code_type n")
    case False
    with assms n have "n' = n" "c' = c" by (auto simp: patch_node_noncode)
    with n False show thesis by (rule other)
  next
    case True
    then have ty: "map_of d ''type'' = Some (JStr ''n8n-nodes-base.code'')"
      using n by (simp add: code_type_def)
    show thesis
    proof (cases "\<exists>k fn. map_of d ''id'' = Some (JStr k) \<and> k \<noteq> [] \<and> map_of m k = Some fn \<and> fn \<noteq> []")
      case True
      then obtain k fn where k: "map_of d ''id'' = Some (JStr k)" "k \<noteq> []" "map_of m k = Some fn" "fn \<noteq> []"
        by blast
      with assms n ty obtain d' where "set_jsCode d (wrapper s fn) = Inr d'" "n' = JObj d'"
        "c' = c\<lparr>total_patched := total_patched c + 1\<rparr>"
        by (auto simp: patch_node_def split: sum.splits)
      with n \<open>code_type n\<close> k show thesis by (intro patch)
    next
      case False
      with assms n ty have "n' = n" "c' = c\<lparr>total_skipped := total_skipped c + 1\<rparr>"
        by (auto simp: patch_node_def skipped_def split: sum.splits option.splits if_splits json.splits
            elim!: mapping_get.elims)
      moreover have "\<And>k. map_of d ''id'' = Some (JStr k) \<Longrightarrow> k = [] \<or> map_of m k = None \<or> map_of m k = Some []"
        using False by (metis not_Some_eq)
      ultimately show thesis using n \<open>code_type n\<close> by (intro skip)
    qed
  qed
qed

lemma patch_node_again:
  assumes "patch_node m s n c = Inr (n', c')"
  shows "patch_node m s n' c = Inr (n', c')"
  using assms
proof (cases rule: patch_node_cases)
  case (other d)
  with assms show ?thesis by simp
next
  case (skip d)
  with assms show ?thesis by simp
next
  case (patch d k fn d')
  have d': "d' = AList.update ''parameters'' (JObj (AList.update ''jsCode'' (JStr (wrapper s fn)) (params_of d))) d"
    by (rule set_jsCode_Inr(1)[OF patch(7)])
  have "map_of d' ''type'' = map_of d ''type''" "map_of d' ''id'' = map_of d ''id''"
    by (simp_all add: d' update_conv')
  moreover have "map_of d ''type'' = Some (JStr ''n8n-nodes-base.code'')"
    using patch(1,2) by (simp add: code_type_def)
  ultimately show ?thesis
    using patch set_jsCode_again[OF patch(7)]
    by (simp add: patch_node_def)
qed

lemma assigned_update: "assigned k d (AList.update k v d)"
  by (simp add: assigned_def delete_update_same update_keys)

lemma patch_node_frame:
  assumes "patch_node m s n c = Inr (n', c')"
  shows "is_dict n \<and> is_dict n' \<and>
         (n' = n \<or>
          code_type n \<and> assigned ''parameters'' (fields n) (fields n') \<and>
          (\<exists>ps'. map_of (fields n') ''parameters'' = Some (JObj ps') \<and>
                 assigned ''jsCode'' (params_of (fields n)) ps'))"
  using assms
proof (cases rule: patch_node_cases)
  case (other d)
  then show ?thesis by simp
next
  case (skip d)
  then show ?thesis by simp
next
  case (patch d k fn d')
  let ?ps' = "AList.update ''jsCode'' (JStr (wrapper s fn)) (params_of d)"
  have d': "d' = AList.update ''parameters'' (JObj ?ps') d"
    by (rule set_jsCode_Inr(1)[OF patch(7)])
  have "assigned ''parameters'' d d'" unfolding d' by (rule assigned_update)
  moreover have "map_of d' ''parameters'' = Some (JObj ?ps')" by (simp add: d' update_conv')
  moreover have "assigned ''jsCode'' (params_of d) ?ps'" by (rule assigned_update)
  ultimately show ?thesis using patch(1,2,8) by auto
qed

lemma patch_node_wrapper:
  assumes "patch_node m s (JObj d) c = Inr (n', c')"
    and "map_of d ''type'' = Some (JStr ''n8n-nodes-base.code'')"
    and "map_of d ''id'' = Some (JStr k)" and "k \<noteq> []" and "map_of m k = Some fn" and "fn \<noteq> []"
  shows "jsCode_of n' = Some (JStr (wrapper s fn))"
proof -
  from assms obtain d' where sj: "set_jsCode d (wrapper s fn) = Inr d'" and n': "n' = JObj d'"
    by (auto simp: patch_node_def split: sum.splits)
  have "d' = AList.update ''parameters'' (JObj (AList.update ''jsCode'' (JStr (wrapper s fn)) (params_of d))) d"
    by (rule set_jsCode_Inr(1)[OF sj])
  then show ?thesis by (simp add: n' jsCode_of_def update_conv')
qed

lemma mapping_get_scalar:
  assumes "\<not> is_list v" and "\<not> is_dict v" and "\<And>k. v = JStr k \<Longrightarrow> map_of m k = None"
  shows "mapping_get m v = Inr None"
  using assms by (cases v) auto

lemma patch_node_skip:
  assumes "map_of d ''type'' = Some (JStr ''n8n-nodes-base.code'')"
    and "map_of d ''id'' = None \<or> (\<exists>v. map_of d ''id'' = Some v \<and> \<not> truthy v)
         \<or> (\<exists>v. map_of d ''id'' = Some v \<and> \<not> is_list v \<and> \<not> is_dict v \<and>
                (\<forall>k. v = JStr k \<longrightarrow> map_of m k = None))"
  shows "patch_node m s (JObj d) c = Inr (JObj d, c\<lparr>total_skipped := total_skipped c + 1\<rparr>)"
proof -
  from assms(2) consider "map_of d ''id'' = None"
    | v where "map_of d ''id'' = Some v" "\<not> truthy v"
    | v where "map_of d ''id'' = Some v" "truthy v" "mapping_get m v = Inr None"
    by (metis mapping_get_scalar)
  then show ?thesis
    using assms(1) by cases (simp_all add: patch_node_def skipped_def)
qed

subsection \<open>The loops\<close>

text \<open>
  The loops relate the input list and the output list element by element, and they add
  up the counters. A \<^verbatim>\<open>nodes\<close> value that is a string or a dict lets the loop end only
  when it is empty.
\<close>

lemma patch_nodes_counters:
  "patch_nodes m s ns c = Inr (ns', c') \<Longrightarrow>
     total_patched c' + total_skipped c' =
     total_patched c + total_skipped c + int (length (filter code_type ns))"
proof (induction ns arbitrary: c ns' c')
  case Nil
  then show ?case by simp
next
  case (Cons n ns)
  from Cons.prems obtain n1 c1 ns1 where
    a: "patch_node m s n c = Inr (n1, c1)" and b: "patch_nodes m s ns c1 = Inr (ns1, c')"
    by (auto split: sum.splits)
  show ?case using patch_node_counters[OF a] Cons.IH[OF b] by simp
qed

lemma patch_nodes_all2:
  "patch_nodes m s ns c = Inr (ns', c') \<Longrightarrow>
     list_all2 (\<lambda>n n'. \<exists>c1 c2. patch_node m s n c1 = Inr (n', c2)) ns ns'"
proof (induction ns arbitrary: c ns' c')
  case Nil
  then show ?case by simp
next
  case (Cons n ns)
  from Cons.prems obtain n1 c1 ns1 where
    a: "patch_node m s n c = Inr (n1, c1)" and b: "patch_nodes m s ns c1 = Inr (ns1, c')"
    and c: "ns' = n1 # ns1"
    by (auto split: sum.splits)
  show ?case using a Cons.IH[OF b] c by auto
qed

lemma patch_nodes_again:
  "patch_nodes m s ns c = Inr (ns', c') \<Longrightarrow> patch_nodes m s ns' c = Inr (ns', c')"
proof (induction ns arbitrary: c ns' c')
  case Nil
  then show ?case by simp
next
  case (Cons n ns)
  from Cons.prems obtain n1 c1 ns1 where
    a: "patch_node m s n c = Inr (n1, c1)" and b: "patch_nodes m s ns c1 = Inr (ns1, c')"
    and c: "ns' = n1 # ns1"
    by (auto split: sum.splits)
  show ?case using patch_node_again[OF a] Cons.IH[OF b] c by simp
qed

lemma patch_nodes_strs:
  assumes a: "patch_nodes m s (map f xs) c = Inr (ns', c')" and b: "\<And>x. \<exists>t. f x = JStr t"
  shows "xs = [] \<and> c' = c"
proof (cases xs)
  case Nil
  with a show ?thesis by simp
next
  case (Cons x xs')
  from b obtain t where "f x = JStr t" by blast
  then have "patch_node m s (f x) c = Inl AttributeError" by (simp add: patch_node_def)
  with a Cons show ?thesis by simp
qed

lemma nodes_of_py_get:
  "nodes_of w = (case py_get w ''nodes'' (JArr []) of Inr (JArr ns) \<Rightarrow> ns | _ \<Rightarrow> [])"
  by (cases w) (auto simp: nodes_of_def split: option.splits json.splits)

lemma nodes_of_store:
  "py_get w ''nodes'' (JArr []) = Inr (JArr ns) \<Longrightarrow> length ns' = length ns \<Longrightarrow>
     nodes_of (store_nodes w ns') = ns'"
  by (cases w) (auto simp: nodes_of_py_get store_nodes_def update_conv' split: option.splits)

lemma patch_workflow_dict:
  "patch_workflow m s w c = Inr (w', c') \<Longrightarrow> \<exists>d d'. w = JObj d \<and> w' = JObj d'"
  by (cases w) (auto simp: patch_workflow_def store_nodes_def split: sum.splits json.splits option.splits)

lemma patch_workflow_nodes:
  assumes "patch_workflow m s w c = Inr (w', c')"
  shows "list_all2 (\<lambda>n n'. \<exists>c1 c2. patch_node m s n c1 = Inr (n', c2)) (nodes_of w) (nodes_of w')"
proof -
  from assms obtain nodes where g: "py_get w ''nodes'' (JArr []) = Inr nodes"
    by (auto simp: patch_workflow_def split: sum.splits)
  show ?thesis
  proof (cases nodes)
    case (JArr ns)
    with assms g obtain ns' where p: "patch_nodes m s ns c = Inr (ns', c')" and w': "w' = store_nodes w ns'"
      by (auto simp: patch_workflow_def split: sum.splits)
    have l: "list_all2 (\<lambda>n n'. \<exists>c1 c2. patch_node m s n c1 = Inr (n', c2)) ns ns'"
      by (rule patch_nodes_all2[OF p])
    then have "length ns' = length ns" by (simp add: list_all2_lengthD)
    with g JArr have "nodes_of w' = ns'" by (simp add: w' nodes_of_store)
    moreover have "nodes_of w = ns" using g JArr by (simp add: nodes_of_py_get)
    ultimately show ?thesis using l by simp
  next
    case (JStr x)
    with assms g have "w' = w" by (auto simp: patch_workflow_def split: sum.splits)
    moreover have "nodes_of w = []" using g JStr by (simp add: nodes_of_py_get)
    ultimately show ?thesis by simp
  next
    case (JObj x)
    with assms g have "w' = w" by (auto simp: patch_workflow_def split: sum.splits)
    moreover have "nodes_of w = []" using g JObj by (simp add: nodes_of_py_get)
    ultimately show ?thesis by simp
  qed (use assms g in \<open>auto simp: patch_workflow_def\<close>)
qed

lemma patch_workflow_counters:
  assumes "patch_workflow m s w c = Inr (w', c')"
  shows "total_patched c' + total_skipped c' =
         total_patched c + total_skipped c + int (length (filter code_type (nodes_of w)))"
proof -
  from assms obtain nodes where g: "py_get w ''nodes'' (JArr []) = Inr nodes"
    by (auto simp: patch_workflow_def split: sum.splits)
  show ?thesis
  proof (cases nodes)
    case (JArr ns)
    with assms g obtain ns' where p: "patch_nodes m s ns c = Inr (ns', c')"
      by (auto simp: patch_workflow_def split: sum.splits)
    have "nodes_of w = ns" using g JArr by (simp add: nodes_of_py_get)
    then show ?thesis using patch_nodes_counters[OF p] by simp
  next
    case (JStr x)
    with assms g obtain ns' where p: "patch_nodes m s (map (\<lambda>ch. JStr [ch]) x) c = Inr (ns', c')"
      by (auto simp: patch_workflow_def split: sum.splits)
    have "c' = c" using patch_nodes_strs[OF p] by blast
    moreover have "nodes_of w = []" using g JStr by (simp add: nodes_of_py_get)
    ultimately show ?thesis by simp
  next
    case (JObj x)
    with assms g obtain ns' where p: "patch_nodes m s (map (\<lambda>kv. JStr (fst kv)) x) c = Inr (ns', c')"
      by (auto simp: patch_workflow_def split: sum.splits)
    have "c' = c" using patch_nodes_strs[OF p] by blast
    moreover have "nodes_of w = []" using g JObj by (simp add: nodes_of_py_get)
    ultimately show ?thesis by simp
  qed (use assms g in \<open>auto simp: patch_workflow_def\<close>)
qed

lemma patch_workflow_no_nodes:
  "map_of d ''nodes'' = None \<Longrightarrow> patch_workflow m s (JObj d) c = Inr (JObj d, c)"
  by (simp add: patch_workflow_def store_nodes_def)

lemma patch_workflow_frame:
  assumes "patch_workflow m s w c = Inr (w', c')"
  shows "is_dict w \<and> is_dict w' \<and>
         (w' = w \<or>
          assigned ''nodes'' (fields w) (fields w') \<and>
          map_of (fields w) ''nodes'' = Some (JArr (nodes_of w)) \<and>
          map_of (fields w') ''nodes'' = Some (JArr (nodes_of w')))"
proof -
  from assms obtain d where w: "w = JObj d" using patch_workflow_dict by blast
  show ?thesis
  proof (cases "map_of d ''nodes''")
    case None
    with assms w have "w' = w" by (simp add: patch_workflow_no_nodes)
    with w show ?thesis by simp
  next
    case (Some nodes)
    show ?thesis
    proof (cases nodes)
      case (JArr ns)
      with assms w Some obtain ns' where
        w': "w' = JObj (AList.update ''nodes'' (JArr ns') d)"
        by (auto simp: patch_workflow_def store_nodes_def split: sum.splits)
      have "assigned ''nodes'' d (AList.update ''nodes'' (JArr ns') d)" by (rule assigned_update)
      moreover have "nodes_of w = ns" using w Some JArr by (simp add: nodes_of_py_get)
      moreover have "nodes_of w' = ns'" by (simp add: w' nodes_of_py_get update_conv')
      ultimately show ?thesis using w w' Some JArr by (simp add: update_conv')
    next
      case (JStr x)
      with assms w Some have "w' = w" by (auto simp: patch_workflow_def split: sum.splits)
      with w show ?thesis by simp
    next
      case (JObj x)
      with assms w Some have "w' = w" by (auto simp: patch_workflow_def split: sum.splits)
      with w show ?thesis by simp
    qed (use assms w Some in \<open>auto simp: patch_workflow_def\<close>)
  qed
qed

lemma patch_workflow_again:
  assumes "patch_workflow m s w c = Inr (w', c')"
  shows "patch_workflow m s w' c = Inr (w', c')"
proof -
  from assms obtain d where w: "w = JObj d" using patch_workflow_dict by blast
  show ?thesis
  proof (cases "map_of d ''nodes''")
    case None
    with assms w have "w' = w" by (simp add: patch_workflow_def store_nodes_def)
    with assms show ?thesis by simp
  next
    case (Some nodes)
    show ?thesis
    proof (cases nodes)
      case (JArr ns)
      with assms w Some obtain ns' where p: "patch_nodes m s ns c = Inr (ns', c')"
        and w': "w' = JObj (AList.update ''nodes'' (JArr ns') d)"
        by (auto simp: patch_workflow_def store_nodes_def split: sum.splits)
      have "AList.update ''nodes'' (JArr ns') (AList.update ''nodes'' (JArr ns') d)
            = AList.update ''nodes'' (JArr ns') d"
        by (simp add: update_last)
      then show ?thesis
        using patch_nodes_again[OF p]
        by (simp add: w' patch_workflow_def store_nodes_def update_conv')
    next
      case (JStr x)
      with assms w Some have "w' = w" by (auto simp: patch_workflow_def split: sum.splits)
      with assms show ?thesis by simp
    next
      case (JObj x)
      with assms w Some have "w' = w" by (auto simp: patch_workflow_def split: sum.splits)
      with assms show ?thesis by simp
    qed (use assms w Some in \<open>auto simp: patch_workflow_def\<close>)
  qed
qed

lemma patch_workflows_all2:
  "patch_workflows m s ws c = Inr (ws', c') \<Longrightarrow>
     list_all2 (\<lambda>w w'. \<exists>c1 c2. patch_workflow m s w c1 = Inr (w', c2)) ws ws'"
proof (induction ws arbitrary: c ws' c')
  case Nil
  then show ?case by simp
next
  case (Cons w ws)
  from Cons.prems obtain w1 c1 ws1 where
    a: "patch_workflow m s w c = Inr (w1, c1)" and b: "patch_workflows m s ws c1 = Inr (ws1, c')"
    and c: "ws' = w1 # ws1"
    by (auto split: sum.splits)
  show ?case using a Cons.IH[OF b] c by auto
qed

lemma patch_workflows_counters:
  "patch_workflows m s ws c = Inr (ws', c') \<Longrightarrow>
     total_patched c' + total_skipped c' =
     total_patched c + total_skipped c
       + (\<Sum>w\<leftarrow>ws. int (length (filter code_type (nodes_of w))))"
proof (induction ws arbitrary: c ws' c')
  case Nil
  then show ?case by simp
next
  case (Cons w ws)
  from Cons.prems obtain w1 c1 ws1 where
    a: "patch_workflow m s w c = Inr (w1, c1)" and b: "patch_workflows m s ws c1 = Inr (ws1, c')"
    by (auto split: sum.splits)
  show ?case using patch_workflow_counters[OF a] Cons.IH[OF b] by simp
qed

lemma patch_workflows_again:
  "patch_workflows m s ws c = Inr (ws', c') \<Longrightarrow> patch_workflows m s ws' c = Inr (ws', c')"
proof (induction ws arbitrary: c ws' c')
  case Nil
  then show ?case by simp
next
  case (Cons w ws)
  from Cons.prems obtain w1 c1 ws1 where
    a: "patch_workflow m s w c = Inr (w1, c1)" and b: "patch_workflows m s ws c1 = Inr (ws1, c')"
    and c: "ws' = w1 # ws1"
    by (auto split: sum.splits)
  show ?case using patch_workflow_again[OF a] Cons.IH[OF b] c by simp
qed

lemma workflows_simps:
  "workflows (JArr ws) = ws" "\<not> is_list data \<Longrightarrow> workflows data = [data]"
  by (cases data; simp add: workflows_def)+

lemma patch_document_Inr:
  assumes "patch_document m s data = Inr (data', c)"
  shows "patch_workflows m s (workflows data) \<lparr>total_patched = 0, total_skipped = 0\<rparr>
           = Inr (workflows data', c)"
    and "is_list data' = is_list data"
proof -
  from assms obtain ws' where
    p: "patch_workflows m s (workflows data) \<lparr>total_patched = 0, total_skipped = 0\<rparr> = Inr (ws', c)"
    and d': "data' = (case data of JArr ws \<Rightarrow> JArr ws' | _ \<Rightarrow> (case ws' of [w] \<Rightarrow> w | _ \<Rightarrow> data))"
    by (auto simp: patch_document_def split: sum.splits)
  have "workflows data' = ws' \<and> is_list data' = is_list data"
  proof (cases "is_list data")
    case True
    then obtain ws where "data = JArr ws" by (cases data) auto
    with d' show ?thesis by (simp add: workflows_simps)
  next
    case False
    then have wd: "workflows data = [data]" by (rule workflows_simps)
    with p obtain w' c1 where a: "patch_workflow m s data \<lparr>total_patched = 0, total_skipped = 0\<rparr> = Inr (w', c1)"
      and ws': "ws' = [w']"
      by (auto split: sum.splits)
    from False d' ws' have "data' = w'" by (cases data) auto
    moreover from a obtain dd where "w' = JObj dd" using patch_workflow_dict by blast
    ultimately show ?thesis using ws' False by (simp add: workflows_def)
  qed
  with p show "patch_workflows m s (workflows data) \<lparr>total_patched = 0, total_skipped = 0\<rparr>
           = Inr (workflows data', c)" and "is_list data' = is_list data" by simp_all
qed

lemma patch_document_again:
  assumes "patch_document m s data = Inr (data', c)"
  shows "patch_document m s data' = Inr (data', c)"
proof -
  have p: "patch_workflows m s (workflows data') \<lparr>total_patched = 0, total_skipped = 0\<rparr>
           = Inr (workflows data', c)"
    using patch_document_Inr(1)[OF assms] by (rule patch_workflows_again)
  show ?thesis
  proof (cases "is_list data'")
    case True
    then obtain ws where "data' = JArr ws" by (cases data') auto
    with p show ?thesis by (simp add: patch_document_def workflows_simps)
  next
    case False
    then have "workflows data' = [data']" by (rule workflows_simps)
    with p False show ?thesis by (cases data') (simp_all add: patch_document_def)
  qed
qed

lemma patch_document_workflow_nth:
  assumes "patch_document m s data = Inr (data', c)" and "i < length (workflows data)"
  shows "length (workflows data') = length (workflows data)"
    and "\<exists>c1 c2. patch_workflow m s (workflows data ! i) c1 = Inr (workflows data' ! i, c2)"
proof -
  have l: "list_all2 (\<lambda>w w'. \<exists>c1 c2. patch_workflow m s w c1 = Inr (w', c2))
             (workflows data) (workflows data')"
    using patch_document_Inr(1)[OF assms(1)] by (rule patch_workflows_all2)
  then show "length (workflows data') = length (workflows data)"
    by (simp add: list_all2_lengthD)
  show "\<exists>c1 c2. patch_workflow m s (workflows data ! i) c1 = Inr (workflows data' ! i, c2)"
    using list_all2_nthD[OF l assms(2)] .
qed

lemma patch_document_node_nth:
  assumes "patch_document m s data = Inr (data', c)" and "i < length (workflows data)"
    and "j < length (nodes_of (workflows data ! i))"
  shows "length (nodes_of (workflows data' ! i)) = length (nodes_of (workflows data ! i))"
    and "\<exists>c1 c2. patch_node m s (nodes_of (workflows data ! i) ! j) c1
                    = Inr (nodes_of (workflows data' ! i) ! j, c2)"
proof -
  from patch_document_workflow_nth(2)[OF assms(1,2)] obtain c1 c2 where
    "patch_workflow m s (workflows data ! i) c1 = Inr (workflows data' ! i, c2)" by blast
  then have l: "list_all2 (\<lambda>n n'. \<exists>c1 c2. patch_node m s n c1 = Inr (n', c2))
         (nodes_of (workflows data ! i)) (nodes_of (workflows data' ! i))"
    by (rule patch_workflow_nodes)
  then show "length (nodes_of (workflows data' ! i)) = length (nodes_of (workflows data ! i))"
    by (simp add: list_all2_lengthD)
  show "\<exists>c1 c2. patch_node m s (nodes_of (workflows data ! i) ! j) c1
                    = Inr (nodes_of (workflows data' ! i) ! j, c2)"
    using list_all2_nthD[OF l assms(3)] .
qed

lemma patch_document_shape:
  assumes "patch_document m s data = Inr (data', c)"
  shows "workflows data = document_workflows data"
    and "workflows data' = document_workflows data'"
proof -
  have l: "list_all2 (\<lambda>w w'. \<exists>c1 c2. patch_workflow m s w c1 = Inr (w', c2))
             (workflows data) (workflows data')"
    using patch_document_Inr(1)[OF assms] by (rule patch_workflows_all2)
  have il: "is_list data' = is_list data" by (rule patch_document_Inr(2)[OF assms])
  show "workflows data = document_workflows data"
  proof (cases "is_list data")
    case True
    then obtain ws where "data = JArr ws" by (cases data) auto
    then show ?thesis by (simp add: workflows_def document_workflows_def)
  next
    case False
    then have wd: "workflows data = [data]" by (rule workflows_simps)
    with l obtain w' where "workflows data' = [w']"
      and "\<exists>c1 c2. patch_workflow m s data c1 = Inr (w', c2)"
      by (auto simp: list_all2_Cons1)
    then obtain d where "data = JObj d" using patch_workflow_dict by blast
    then show ?thesis by (simp add: workflows_def document_workflows_def)
  qed
  show "workflows data' = document_workflows data'"
  proof (cases "is_list data'")
    case True
    then obtain ws where "data' = JArr ws" by (cases data') auto
    then show ?thesis by (simp add: workflows_def document_workflows_def)
  next
    case False
    then have wd': "workflows data' = [data']" by (rule workflows_simps)
    from False il have "workflows data = [data]" by (simp add: workflows_simps)
    with l wd' have "\<exists>c1 c2. patch_workflow m s data c1 = Inr (data', c2)" by simp
    then obtain d' where "data' = JObj d'" using patch_workflow_dict by blast
    then show ?thesis by (simp add: workflows_def document_workflows_def)
  qed
qed

subsection \<open>The file-name pattern\<close>

text \<open>
  On a name that \<^verbatim>\<open>glob\<close> lets through, the regular expression finds exactly the token
  of the naming convention. The mapping then holds, for each token, the last path of the
  list whose base name carries it.
\<close>

lemma match_here_Some:
  "match_here s = Some g \<longleftrightarrow>
     length g = 36 \<and> list_all uuid_char g \<and> (s = ''__'' @ g @ ''.js'' \<or> s = ''__'' @ g @ ''.js'' @ [CHR 0x0A])"
proof
  assume a: "match_here s = Some g"
  then have t2: "take 2 s = ''__''" and g: "g = take 36 (drop 2 s)" and lg: "length g = 36"
    and u: "list_all uuid_char g" and t3: "take 3 (drop 38 s) = ''.js''" and e: "at_end (drop 41 s)"
    by (auto simp: match_here_def Let_def split: if_splits)
  have s1: "s = take 2 s @ drop 2 s" by simp
  have s2: "drop 2 s = take 36 (drop 2 s) @ drop 38 s"
    using append_take_drop_id[of 36 "drop 2 s"] by simp
  have s3: "drop 38 s = take 3 (drop 38 s) @ drop 41 s"
    using append_take_drop_id[of 3 "drop 38 s"] by simp
  have "s = take 2 s @ take 36 (drop 2 s) @ take 3 (drop 38 s) @ drop 41 s"
    using s1 s2 s3 by metis
  then have "s = ''__'' @ g @ ''.js'' @ drop 41 s" using t2 g t3 by simp
  with e lg u show "length g = 36 \<and> list_all uuid_char g \<and> (s = ''__'' @ g @ ''.js'' \<or> s = ''__'' @ g @ ''.js'' @ [CHR 0x0A])"
    by (auto simp: at_end_def)
next
  assume "length g = 36 \<and> list_all uuid_char g \<and> (s = ''__'' @ g @ ''.js'' \<or> s = ''__'' @ g @ ''.js'' @ [CHR 0x0A])"
  then show "match_here s = Some g"
    by (auto simp: match_here_def Let_def at_end_def)
qed

lemma uuid_js_token_Some:
  "uuid_js_token name = Some g \<longleftrightarrow>
     length g = 36 \<and> list_all uuid_char g \<and> (\<exists>pre. name = pre @ ''__'' @ g @ ''.js'')"
proof
  assume a: "uuid_js_token name = Some g"
  let ?n = "length name"
  from a have n: "41 \<le> ?n" and t2: "take 2 (drop (?n - 41) name) = ''__''"
    and g: "g = take 36 (drop (?n - 39) name)" and u: "list_all uuid_char g"
    and t3: "drop (?n - 3) name = ''.js''"
    by (auto simp: uuid_js_token_def Let_def split: if_splits)
  have lg: "length g = 36" using n g by simp
  have e1: "?n - 39 = 2 + (?n - 41)" and e2: "?n - 3 = 36 + (?n - 39)" using n by linarith+
  have d1: "drop (?n - 39) name = drop 2 (drop (?n - 41) name)" by (simp only: drop_drop e1[symmetric])
  have d2: "drop (?n - 3) name = drop 36 (drop (?n - 39) name)" by (simp only: drop_drop e2[symmetric])
  have s1: "name = take (?n - 41) name @ drop (?n - 41) name" by simp
  have s2: "drop (?n - 41) name = take 2 (drop (?n - 41) name) @ drop (?n - 39) name"
    using append_take_drop_id[of 2 "drop (?n - 41) name"] d1 by simp
  have s3: "drop (?n - 39) name = take 36 (drop (?n - 39) name) @ drop (?n - 3) name"
    using append_take_drop_id[of 36 "drop (?n - 39) name"] d2 by simp
  have "name = take (?n - 41) name @ ''__'' @ g @ ''.js''"
    using s1 s2 s3 t2 g t3 by metis
  with lg u show "length g = 36 \<and> list_all uuid_char g \<and> (\<exists>pre. name = pre @ ''__'' @ g @ ''.js'')"
    by blast
next
  assume "length g = 36 \<and> list_all uuid_char g \<and> (\<exists>pre. name = pre @ ''__'' @ g @ ''.js'')"
  then obtain pre where lg: "length g = 36" and u: "list_all uuid_char g"
    and nm: "name = pre @ ''__'' @ g @ ''.js''" by blast
  have n: "length name = length pre + 41" using nm lg by simp
  have "drop (length pre) name = ''__'' @ g @ ''.js''" using nm by simp
  moreover have "drop (length pre + 2) name = g @ ''.js''" using nm by simp
  moreover have "drop (length pre + 38) name = ''.js''" using nm lg by simp
  ultimately show "uuid_js_token name = Some g"
    using n lg u by (simp add: uuid_js_token_def Let_def add.commute)
qed

lemma uuid_js_token_fnmatch:
  "uuid_js_token name = Some g \<Longrightarrow> fnmatch_star_js name"
  by (auto simp: uuid_js_token_def fnmatch_star_js_def Let_def split: if_splits)

lemma re_search_Some_D:
  "re_search s = Some g \<Longrightarrow> \<exists>pre t. s = pre @ t \<and> match_here t = Some g"
proof (induction s)
  case Nil
  then show ?case by simp
next
  case (Cons c cs)
  show ?case
  proof (cases "match_here (c # cs)")
    case None
    with Cons.prems have "re_search cs = Some g" by simp
    from Cons.IH[OF this] obtain pre t where "cs = pre @ t" "match_here t = Some g" by blast
    then have "c # cs = (c # pre) @ t \<and> match_here t = Some g" by simp
    then show ?thesis by blast
  next
    case (Some g')
    with Cons.prems have "g' = g" by simp
    with Some have "c # cs = [] @ (c # cs) \<and> match_here (c # cs) = Some g" by simp
    then show ?thesis by blast
  qed
qed

lemma re_search_suffix:
  assumes lg: "length g = 36" and u: "list_all uuid_char g"
  shows "re_search (pre @ ''__'' @ g @ ''.js'') = Some g"
proof (induction pre)
  case Nil
  have "match_here (''__'' @ g @ ''.js'') = Some g"
    using lg u by (simp add: match_here_Some)
  then show ?case by simp
next
  case (Cons a pre)
  let ?s = "(a # pre) @ ''__'' @ g @ ''.js''"
  have "match_here ?s = None"
  proof (cases "match_here ?s")
    case None
    then show ?thesis .
  next
    case (Some g')
    then have g': "length g' = 36" and alt: "?s = ''__'' @ g' @ ''.js'' \<or> ?s = ''__'' @ g' @ ''.js'' @ [CHR 0x0A]"
      by (simp_all add: match_here_Some)
    have len: "length ?s = length pre + 42" using lg by simp
    from alt show ?thesis
    proof
      assume "?s = ''__'' @ g' @ ''.js''"
      then have "length ?s = length (''__'' @ g' @ ''.js'')" by (simp only:)
      then have "length ?s = 41" using g' by simp
      with len show ?thesis by simp
    next
      assume e: "?s = ''__'' @ g' @ ''.js'' @ [CHR 0x0A]"
      have "last ?s = CHR ''s''" by simp
      moreover have "last (''__'' @ g' @ ''.js'' @ [CHR 0x0A]) = CHR 0x0A" by simp
      ultimately show ?thesis using e by simp
    qed
  qed
  with Cons.IH show ?case by simp
qed

lemma fnmatch_star_js_last:
  "fnmatch_star_js name \<Longrightarrow> name \<noteq> [] \<and> last name = CHR ''s''"
proof -
  assume a: "fnmatch_star_js name"
  then have "name = take (length name - 3) name @ ''.js''"
    by (metis append_take_drop_id fnmatch_star_js_def)
  then obtain pre where "name = pre @ ''.js''" ..
  then show ?thesis by simp
qed

lemma re_search_eq_token:
  assumes "fnmatch_star_js name"
  shows "re_search name = uuid_js_token name"
proof (cases "re_search name")
  case None
  have "uuid_js_token name = None"
  proof (cases "uuid_js_token name")
    case (Some g)
    then obtain pre where "length g = 36" "list_all uuid_char g" and nm: "name = pre @ ''__'' @ g @ ''.js''"
      by (auto simp: uuid_js_token_Some)
    then have "re_search (pre @ ''__'' @ g @ ''.js'') = Some g" by (intro re_search_suffix)
    then have "re_search name = Some g" by (simp only: nm)
    with None show ?thesis by simp
  qed simp
  with None show ?thesis by simp
next
  case (Some g)
  from re_search_Some_D[OF Some] obtain pre t where nm: "name = pre @ t" and m: "match_here t = Some g"
    by blast
  from m have lg: "length g = 36" and u: "list_all uuid_char g"
    and alt: "t = ''__'' @ g @ ''.js'' \<or> t = ''__'' @ g @ ''.js'' @ [CHR 0x0A]"
    by (simp_all add: match_here_Some)
  have "t = ''__'' @ g @ ''.js''"
  proof (rule ccontr)
    assume "t \<noteq> ''__'' @ g @ ''.js''"
    with alt have "t = ''__'' @ g @ ''.js'' @ [CHR 0x0A]" by simp
    then have "last name = CHR 0x0A" using nm by simp
    with fnmatch_star_js_last[OF assms] show False by simp
  qed
  with nm lg u have "uuid_js_token name = Some g"
    by (auto simp: uuid_js_token_Some)
  with Some show ?thesis by simp
qed

lemma re_search_Some_nonempty:
  assumes "re_search base = Some g"
  shows "length g = 36 \<and> base \<noteq> []"
proof -
  from re_search_Some_D[OF assms] obtain pre t where nm: "base = pre @ t" and m: "match_here t = Some g"
    by blast
  from m have "length g = 36" and "t \<noteq> []" by (auto simp: match_here_Some)
  with nm show ?thesis by simp
qed

lemma basename_join:
  assumes "CHR ''/'' \<notin> set name"
  shows "posix_basename (posix_join d name) = name"
proof -
  have tw: "takeWhile (\<lambda>c. c \<noteq> CHR ''/'') (rev name @ ys) = rev name @ takeWhile (\<lambda>c. c \<noteq> CHR ''/'') ys" for ys
    using assms by (intro takeWhile_append2) auto
  have hd: "(name \<noteq> [] \<and> hd name = CHR ''/'') = False"
    using assms by (cases name) auto
  show ?thesis
  proof (cases "d = [] \<or> last d = CHR ''/''")
    case True
    then have "takeWhile (\<lambda>c. c \<noteq> CHR ''/'') (rev d) = []"
      by (cases d rule: rev_cases) auto
    with True show ?thesis by (simp add: posix_join_def hd posix_basename_def tw)
  next
    case False
    then show ?thesis by (simp add: posix_join_def hd posix_basename_def tw)
  qed
qed

lemma build_mapping_lookup:
  "map_of (build_mapping ps m) k =
     (case filter (\<lambda>p. re_search (posix_basename p) = Some k) ps of
        [] \<Rightarrow> map_of m k
      | x # xs \<Rightarrow> Some (posix_basename (last (x # xs))))"
proof (induction ps arbitrary: m)
  case Nil
  then show ?case by simp
next
  case (Cons p ps)
  show ?case
  proof (cases "re_search (posix_basename p)")
    case None
    then show ?thesis using Cons.IH[of m] by simp
  next
    case (Some g)
    show ?thesis
    proof (cases "g = k")
      case True
      with Some show ?thesis
        using Cons.IH[of "AList.update g (posix_basename p) m"]
        by (simp add: update_conv' split: list.splits)
    next
      case False
      with Some show ?thesis
        using Cons.IH[of "AList.update g (posix_basename p) m"]
        by (simp add: update_conv' split: list.splits)
    qed
  qed
qed

lemma build_mapping_distinct:
  "distinct (map fst m) \<Longrightarrow> distinct (map fst (build_mapping ps m))"
  by (induction ps arbitrary: m) (auto simp: Let_def distinct_update split: option.splits)

lemma build_mapping_entries:
  assumes "\<And>k v. map_of m k = Some v \<Longrightarrow> length k = 36 \<and> v \<noteq> []"
    and "map_of (build_mapping ps m) k = Some v"
  shows "length k = 36 \<and> v \<noteq> []"
  using assms
proof (induction ps arbitrary: m)
  case Nil
  then show ?case by simp
next
  case (Cons p ps)
  show ?case
  proof (cases "re_search (posix_basename p)")
    case None
    with Cons.prems(2) have "map_of (build_mapping ps m) k = Some v" by simp
    with Cons.IH[of m] Cons.prems(1) show ?thesis by blast
  next
    case (Some g)
    let ?m = "AList.update g (posix_basename p) m"
    from Some Cons.prems(2) have b: "map_of (build_mapping ps ?m) k = Some v" by simp
    have "length k' = 36 \<and> v' \<noteq> []" if "map_of ?m k' = Some v'" for k' v'
      using that Cons.prems(1)[of k' v'] re_search_Some_nonempty[OF Some]
      by (auto simp: update_conv' split: if_splits)
    with Cons.IH[of ?m] b show ?thesis by blast
  qed
qed

lemma build_mapping_Nil:
  "\<forall>p\<in>set ps. re_search (posix_basename p) = None \<Longrightarrow> build_mapping ps m = m"
  by (induction ps arbitrary: m) auto

lemma scan_filter:
  assumes "\<forall>name\<in>set names. CHR ''/'' \<notin> set name"
  shows "filter (\<lambda>p. re_search (posix_basename p) = Some k)
           (map (posix_join d) (filter (\<lambda>name. \<not> ishidden name \<and> fnmatch_star_js name) names)) =
         map (posix_join d)
           (filter (\<lambda>name. \<not> ishidden name \<and> uuid_js_token name = Some k) names)"
proof -
  have "filter (\<lambda>name. re_search (posix_basename (posix_join d name)) = Some k)
          (filter (\<lambda>name. \<not> ishidden name \<and> fnmatch_star_js name) names)
        = filter (\<lambda>name. \<not> ishidden name \<and> uuid_js_token name = Some k) names"
    unfolding filter_filter
  proof (rule filter_cong[OF refl])
    fix name assume "name \<in> set names"
    with assms have b: "posix_basename (posix_join d name) = name"
      by (simp add: basename_join)
    show "((\<not> ishidden name \<and> fnmatch_star_js name) \<and>
            re_search (posix_basename (posix_join d name)) = Some k)
          = (\<not> ishidden name \<and> uuid_js_token name = Some k)"
      using re_search_eq_token[of name] uuid_js_token_fnmatch[of name k] by (auto simp: b)
  qed
  then show ?thesis by (simp add: filter_map o_def)
qed

lemma scan_lookup:
  assumes "\<forall>name\<in>set names. CHR ''/'' \<notin> set name"
  shows "map_of (build_mapping
           (map (posix_join d) (filter (\<lambda>name. \<not> ishidden name \<and> fnmatch_star_js name) names)) [])
           node_id =
     (case filter (\<lambda>name. \<not> ishidden name \<and> uuid_js_token name = Some node_id) names of
        [] \<Rightarrow> None
      | x # xs \<Rightarrow> Some (last (x # xs)))"
proof -
  let ?F = "filter (\<lambda>name. \<not> ishidden name \<and> uuid_js_token name = Some node_id) names"
  show ?thesis
  proof (cases ?F)
    case Nil
    then show ?thesis
      by (simp add: build_mapping_lookup scan_filter[OF assms])
  next
    case (Cons x xs)
    then have "last ?F \<in> set names"
      by (metis (no_types, lifting) filter_is_subset last_in_set list.distinct(1) subsetD)
    with assms have b: "posix_basename (posix_join d (last ?F)) = last ?F"
      by (simp add: basename_join)
    have "?F \<noteq> []" using Cons by simp
    then have "posix_basename (last (map (posix_join d) ?F)) = last ?F"
      using b by (simp add: last_map)
    then show ?thesis using Cons
      by (simp add: build_mapping_lookup scan_filter[OF assms] del: last.simps)
  qed
qed

lemma scan_no_token:
  assumes "\<forall>name\<in>set names. CHR ''/'' \<notin> set name \<and> uuid_js_token name = None"
  shows "build_mapping
           (map (posix_join d) (filter (\<lambda>name. \<not> ishidden name \<and> fnmatch_star_js name) names)) []
         = []"
proof (rule build_mapping_Nil, rule ballI)
  fix p
  assume "p \<in> set (map (posix_join d)
                     (filter (\<lambda>name. \<not> ishidden name \<and> fnmatch_star_js name) names))"
  then obtain name where n: "name \<in> set names" "fnmatch_star_js name"
    and p: "p = posix_join d name"
    by auto
  with assms have "posix_basename p = name" by (simp add: basename_join)
  moreover have "re_search name = uuid_js_token name" using n(2) by (rule re_search_eq_token)
  ultimately show "re_search (posix_basename p) = None" using assms n(1) by simp
qed

lemma not_replicate: "x \<noteq> c \<Longrightarrow> xs @ x # ys \<noteq> replicate n c"
proof
  assume "x \<noteq> c" and "xs @ x # ys = replicate n c"
  then have "x \<in> set (replicate n c)" by (metis in_set_conv_decomp)
  with \<open>x \<noteq> c\<close> show False by simp
qed

lemma glob_dirname_plain:
  assumes "js_dir \<noteq> []" and "last js_dir \<noteq> CHR ''/''"
  shows "glob_dirname js_dir = js_dir"
proof -
  from assms obtain xs x where j: "js_dir = xs @ [x]" "x \<noteq> CHR ''/''"
    by (cases js_dir rule: rev_cases) auto
  have "xs @ [x, CHR ''/''] \<noteq> CHR ''/'' # CHR ''/'' # replicate (length xs) (CHR ''/'')"
    using not_replicate[OF j(2), of xs "''/''" "Suc (Suc (length xs))"] by simp
  then show ?thesis
    using j by (simp add: glob_dirname_def posix_join_def posix_split_head_def Let_def)
qed

lemma glob_dirname_cases:
  "glob_dirname js_dir = [] \<or> glob_dirname js_dir = js_dir \<or>
   glob_dirname js_dir = rev (dropWhile (\<lambda>c. c = CHR ''/'') (rev js_dir))"
proof (cases "js_dir = [] \<or> last js_dir = CHR ''/''")
  case False
  then show ?thesis by (simp add: glob_dirname_plain)
next
  case True
  show ?thesis
  proof (cases "js_dir = []")
    case True
    then show ?thesis
      by (simp add: glob_dirname_def posix_join_def posix_split_head_def)
  next
    case False
    with True obtain xs where j: "js_dir = xs @ ''/''"
      by (cases js_dir rule: rev_cases) auto
    then show ?thesis
      by (simp add: glob_dirname_def posix_join_def posix_split_head_def Let_def)
  qed
qed

lemma glob_dirname_set: "set (glob_dirname js_dir) \<subseteq> set js_dir"
proof -
  have "set (rev (dropWhile (\<lambda>c. c = CHR ''/'') (rev js_dir))) \<subseteq> set js_dir"
    using set_dropWhileD[of _ "\<lambda>c. c = CHR ''/''" "rev js_dir"] by auto
  with glob_dirname_cases[of js_dir] show ?thesis by auto
qed

lemma glob_dirname_no_magic: "\<not> has_magic js_dir \<Longrightarrow> \<not> has_magic (glob_dirname js_dir)"
  using glob_dirname_set[of js_dir] by (auto simp: has_magic_def list_ex_iff)

lemma glob_js_plain:
  assumes "\<not> has_magic js_dir"
  shows "glob_js fs js_dir =
         map (posix_join (glob_dirname js_dir))
           (filter (\<lambda>name. \<not> ishidden name \<and> fnmatch_star_js name)
              (scandir fs (glob_dirname js_dir)))"
  using glob_dirname_no_magic[OF assms] by (simp add: glob_js_def glob1_js_def Let_def)

subsection \<open>The whole run\<close>

text \<open>The run that writes a file is the one that passes every check and raises nothing.\<close>

lemma main_success:
  assumes "length argv = 4" and "path_exists fs (argv ! 1)" and "path_isdir fs (argv ! 2)"
    and "build_mapping (glob_js fs (argv ! 2)) [] \<noteq> []"
    and "load_json fs (argv ! 1) = Inr data"
    and "patch_document (build_mapping (glob_js fs (argv ! 2)) []) (argv ! 3) data = Inr (data', c)"
    and "makedirs fs ''tmp'' = None" and "write_json fs (out_path (argv ! 3)) = None"
  shows "main fs argv =
     \<lparr>events = [ListDir (argv ! 2), ReadFile (argv ! 1), MakeDirs ''tmp'',
                WriteFile (out_path (argv ! 3)) data',
                Stdout (''Patched code nodes: '' @ str_int (total_patched c)
                        @ '', skipped: '' @ str_int (total_skipped c)),
                Stdout (''Wrote: '' @ out_path (argv ! 3))],
      exit_status = 0\<rparr>"
  using assms by (simp add: main_def Let_def)

lemma main_written_D:
  assumes "written (main fs argv) = [(out, data')]"
  shows "length argv = 4 \<and> path_exists fs (argv ! 1) \<and> path_isdir fs (argv ! 2) \<and>
         build_mapping (glob_js fs (argv ! 2)) [] \<noteq> [] \<and>
         (\<exists>data c. load_json fs (argv ! 1) = Inr data \<and>
            patch_document (build_mapping (glob_js fs (argv ! 2)) []) (argv ! 3) data
              = Inr (data', c)) \<and>
         out = out_path (argv ! 3)"
  using assms
  by (auto simp: main_def Let_def die_def uncaught_def written_def
      split: if_splits sum.splits option.splits)

subsection \<open>The example, evaluated\<close>

text \<open>The mapping, the patched document and the tokens of the worked example.\<close>

lemmas ex_defs = ex_id1_def ex_id2_def ex_file_def ex_hidden_def ex_listing_def ex_mapping_def
  ex_code_def ex_mapped_def ex_unmapped_def ex_other_def ex_patched_def ex_bare_def ex_data_def
  ex_out_def ex_single_def ex_single_out_def

lemmas glob_defs = Let_def glob_js_def glob1_js_def glob_dirname_def posix_split_head_def has_magic_def
  ishidden_def fnmatch_star_js_def posix_join_def posix_basename_def match_here_def
  uuid_char_def at_end_def

lemma ex_dirname: "glob_dirname ''js'' = ''js''" "\<not> has_magic ''js''"
  by (simp_all add: glob_dirname_def posix_split_head_def posix_join_def has_magic_def)

lemma glob_js_update:
  "glob_js (fs\<lparr>load_json := f\<rparr>) d = glob_js fs d"
  "glob_js (fs\<lparr>path_exists := g\<rparr>) d = glob_js fs d"
  by (simp_all add: glob_js_def glob1_js_def Let_def)

lemma ex_mapping_eval: "build_mapping (glob_js ex_fs ''js'') [] = ex_mapping"
  by (simp add: ex_fs_def ex_defs glob_defs)

lemma ex_patch_eval:
  "patch_document ex_mapping ''slug'' ex_data = Inr (ex_out, \<lparr>total_patched = 1, total_skipped = 1\<rparr>)"
  by (simp add: ex_defs patch_document_def workflows_def patch_workflow_def store_nodes_def
      patch_node_def skipped_def set_jsCode_def setdefault_def)

lemma ex_single_eval:
  "patch_document ex_mapping ''slug'' ex_single
     = Inr (ex_single_out, \<lparr>total_patched = 1, total_skipped = 1\<rparr>)"
  by (simp add: ex_defs patch_document_def workflows_def patch_workflow_def store_nodes_def
      patch_node_def skipped_def set_jsCode_def setdefault_def)

lemma ex_workflows: "workflows ex_data ! 0 = JObj [(''name'', JStr ''w1''),
                         (''nodes'', JArr [JObj ex_mapped, JObj ex_unmapped, JObj ex_other])]"
   "workflows ex_data ! 1 = JObj ex_bare" "length (workflows ex_data) = 2"
  by (simp_all add: ex_data_def workflows_def)

lemma ex_nodes: "nodes_of (workflows ex_data ! 0) = [JObj ex_mapped, JObj ex_unmapped, JObj ex_other]"
  by (simp add: ex_workflows nodes_of_def)

lemma ex_out_nodes: "nodes_of (workflows ex_out ! 0) = [JObj ex_patched, JObj ex_unmapped, JObj ex_other]"
  by (simp add: ex_out_def workflows_def nodes_of_def)

lemma ex_tokens:
  "uuid_js_token ''old__11111111-1111-1111-1111-111111111111.js'' = Some ex_id1"
  "uuid_js_token ex_file = Some ex_id1"
  "uuid_js_token ex_hidden = Some ex_id2"
  "uuid_js_token ex_subdir = Some ex_id3"
  "uuid_js_token ''notes.txt'' = None"
  "uuid_js_token ''x.js'' = None"
  by (simp_all add: uuid_js_token_def uuid_char_def ex_id1_def ex_id2_def ex_id3_def ex_file_def
      ex_hidden_def ex_subdir_def)

section \<open>The claims\<close>

text \<open>
  C1. In a run of the patcher that completes, with the file mapping built by the mapping
  builder, take any workflow of the input document (the root object itself, or an
  element of the root array) and any of its nodes whose \<^verbatim>\<open>type\<close> is
  \<^verbatim>\<open>n8n-nodes-base.code\<close> and whose \<^verbatim>\<open>id\<close> is a key of the mapping. In the output
  document the node at the same place of the same workflow has a \<^verbatim>\<open>parameters.jsCode\<close>
  equal to the wrapper for its file name \<open>fn\<close> and the workflow slug: a \<^verbatim>\<open>try\<close> block
  that requires \<^verbatim>\<open>/data/js/workflows/<slug>/<fn>\<close> and returns the awaited call of its
  export on \<^verbatim>\<open>{$input,$json,$items,$node,$env,helpers}\<close>, and a \<^verbatim>\<open>catch\<close> block that
  puts \<^verbatim>\<open>[extjs:<slug>/<fn>]\<close> in front of the error's message and throws it again.
\<close>

theorem patched_node_gets_wrapper:
  assumes "patch_document (build_mapping paths []) workflow_slug data = Inr (data', c)"
    and "i < length (document_workflows data)"
    and "j < length (nodes_of (document_workflows data ! i))"
    and "nodes_of (document_workflows data ! i) ! j = JObj d"
    and "map_of d ''type'' = Some (JStr ''n8n-nodes-base.code'')"
    and "map_of d ''id'' = Some (JStr node_id)"
    and "map_of (build_mapping paths []) node_id = Some fn"
  shows "jsCode_of (nodes_of (document_workflows data' ! i) ! j)
           = Some (JStr (wrapper workflow_slug fn)) \<and>
         wrapper workflow_slug fn =
           ''try{const fn=require('' @ [CHR 0x27] @ ''/data/js/workflows/'' @ workflow_slug @ ''/'' @ fn
           @ [CHR 0x27] @ '');return await fn({$input,$json,$items,$node,$env,helpers});}''
           @ ''catch(e){e.message=`[extjs:'' @ workflow_slug @ ''/'' @ fn @ ''] ${e.message}`;throw e;}''"
proof -
  note sh = patch_document_shape[OF assms(1)]
  have "length node_id = 36 \<and> fn \<noteq> []"
    using assms(7) by (rule build_mapping_entries[rotated]) simp
  then have ne: "node_id \<noteq> []" "fn \<noteq> []" by auto
  have i: "i < length (workflows data)" and j: "j < length (nodes_of (workflows data ! i))"
    using assms(2,3) by (simp_all add: sh)
  from patch_document_node_nth(2)[OF assms(1) i j] obtain c1 c2 where
    "patch_node (build_mapping paths []) workflow_slug (JObj d) c1
       = Inr (nodes_of (document_workflows data' ! i) ! j, c2)"
    using assms(4) by (auto simp: sh)
  then have "jsCode_of (nodes_of (document_workflows data' ! i) ! j)
               = Some (JStr (wrapper workflow_slug fn))"
    using assms(5,6) ne(1) assms(7) ne(2) by (rule patch_node_wrapper)
  moreover have "wrapper workflow_slug fn =
           ''try{const fn=require('' @ [CHR 0x27] @ ''/data/js/workflows/'' @ workflow_slug @ ''/'' @ fn
           @ [CHR 0x27] @ '');return await fn({$input,$json,$items,$node,$env,helpers});}''
           @ ''catch(e){e.message=`[extjs:'' @ workflow_slug @ ''/'' @ fn @ ''] ${e.message}`;throw e;}''"
    by (simp add: wrapper_def)
  ultimately show ?thesis by blast
qed

theorem patched_node_gets_wrapper_witness:
  "patch_document (build_mapping (glob_js ex_fs ''js'') []) ''slug'' ex_data
     = Inr (ex_out, \<lparr>total_patched = 1, total_skipped = 1\<rparr>) \<and>
   nodes_of (document_workflows ex_data ! 0) ! 0 = JObj ex_mapped \<and>
   map_of ex_mapped ''id'' = Some (JStr ex_id1) \<and>
   map_of (build_mapping (glob_js ex_fs ''js'') []) ex_id1 = Some ex_file \<and>
   jsCode_of (nodes_of (document_workflows ex_out ! 0) ! 0)
     = Some (JStr (wrapper ''slug'' ex_file)) \<and>
   patch_document (build_mapping (glob_js ex_fs ''js'') []) ''slug'' ex_single
     = Inr (ex_single_out, \<lparr>total_patched = 1, total_skipped = 1\<rparr>) \<and>
   document_workflows ex_single = [ex_single] \<and>
   nodes_of ex_single ! 1 = JObj ex_mapped \<and>
   jsCode_of (nodes_of ex_single_out ! 1) = Some (JStr (wrapper ''slug'' ex_file))"
proof -
  have a: "patch_document (build_mapping (glob_js ex_fs ''js'') []) ''slug'' ex_data
     = Inr (ex_out, \<lparr>total_patched = 1, total_skipped = 1\<rparr>)"
    by (simp add: ex_mapping_eval ex_patch_eval)
  have dw: "document_workflows ex_data ! 0 = workflows ex_data ! 0"
    "document_workflows ex_out ! 0 = workflows ex_out ! 0"
    "length (document_workflows ex_data) = 2"
    by (simp_all add: document_workflows_def workflows_def ex_data_def ex_out_def)
  have b: "0 < length (document_workflows ex_data)" by (simp add: dw)
  have c: "0 < length (nodes_of (document_workflows ex_data ! 0))" by (simp add: dw ex_nodes)
  have d: "nodes_of (document_workflows ex_data ! 0) ! 0 = JObj ex_mapped"
    by (simp add: dw ex_nodes)
  have e: "map_of ex_mapped ''type'' = Some (JStr ''n8n-nodes-base.code'')"
    by (simp add: ex_mapped_def ex_code_def)
  have f: "map_of ex_mapped ''id'' = Some (JStr ex_id1)" by (simp add: ex_mapped_def)
  have g: "map_of (build_mapping (glob_js ex_fs ''js'') []) ex_id1 = Some ex_file"
    by (simp add: ex_mapping_eval ex_mapping_def)
  note list_root = patched_node_gets_wrapper[OF a b c d e f g]
  have a': "patch_document (build_mapping (glob_js ex_fs ''js'') []) ''slug'' ex_single
     = Inr (ex_single_out, \<lparr>total_patched = 1, total_skipped = 1\<rparr>)"
    by (simp add: ex_mapping_eval ex_single_eval)
  have s: "document_workflows ex_single = [ex_single]"
    "document_workflows ex_single_out = [ex_single_out]"
    by (simp_all add: document_workflows_def ex_single_def ex_single_out_def)
  have ns: "nodes_of ex_single = [JObj ex_other, JObj ex_mapped, JObj ex_unmapped]"
    by (simp add: nodes_of_def ex_single_def)
  have b': "0 < length (document_workflows ex_single)" by (simp add: s)
  have c': "1 < length (nodes_of (document_workflows ex_single ! 0))" by (simp add: s ns)
  have d': "nodes_of (document_workflows ex_single ! 0) ! 1 = JObj ex_mapped" by (simp add: s ns)
  note object_root = patched_node_gets_wrapper[OF a' b' c' d' e f g]
  have n1: "nodes_of ex_single ! 1 = JObj ex_mapped" by (simp add: ns)
  from object_root have o: "jsCode_of (nodes_of ex_single_out ! 1) = Some (JStr (wrapper ''slug'' ex_file))"
    by (simp add: s)
  from list_root a d f g a' s(1) n1 o show ?thesis by blast
qed

text \<open>
  C2. In a run of the patcher that completes, the output document has the shape of the
  input. The root is a list exactly when the input root is; the workflows are as many,
  each a dict that is the input workflow itself or differs from it only in the list
  stored under \<^verbatim>\<open>nodes\<close>; the nodes of a workflow are as many and in the same places;
  each node is the input node itself, or it is a code-type node that differs from the
  input node only in its \<^verbatim>\<open>parameters\<close> entry (appended when the node had none), whose
  dict differs from the input one only in its \<^verbatim>\<open>jsCode\<close> entry. So a node of another
  type is unchanged, and nothing is added, removed or reordered.
\<close>

theorem structure_preserved:
  assumes "patch_document mapping workflow_slug data = Inr (data', c)"
  shows "is_list data' = is_list data \<and>
         length (workflows data') = length (workflows data) \<and>
         (\<forall>i<length (workflows data).
            is_dict (workflows data ! i) \<and> is_dict (workflows data' ! i) \<and>
            (workflows data' ! i = workflows data ! i \<or>
             assigned ''nodes'' (fields (workflows data ! i)) (fields (workflows data' ! i)) \<and>
             map_of (fields (workflows data ! i)) ''nodes'' = Some (JArr (nodes_of (workflows data ! i))) \<and>
             map_of (fields (workflows data' ! i)) ''nodes'' = Some (JArr (nodes_of (workflows data' ! i)))) \<and>
            length (nodes_of (workflows data' ! i)) = length (nodes_of (workflows data ! i)) \<and>
            (\<forall>j<length (nodes_of (workflows data ! i)).
               is_dict (nodes_of (workflows data ! i) ! j) \<and>
               is_dict (nodes_of (workflows data' ! i) ! j) \<and>
               (nodes_of (workflows data' ! i) ! j = nodes_of (workflows data ! i) ! j \<or>
                code_type (nodes_of (workflows data ! i) ! j) \<and>
                assigned ''parameters'' (fields (nodes_of (workflows data ! i) ! j))
                  (fields (nodes_of (workflows data' ! i) ! j)) \<and>
                (\<exists>ps'. map_of (fields (nodes_of (workflows data' ! i) ! j)) ''parameters'' = Some (JObj ps') \<and>
                   assigned ''jsCode'' (params_of (fields (nodes_of (workflows data ! i) ! j))) ps'))))"
proof (intro conjI allI impI)
  show "is_list data' = is_list data" by (rule patch_document_Inr(2)[OF assms])
  show "length (workflows data') = length (workflows data)"
    using patch_document_Inr(1)[OF assms] by (auto dest!: patch_workflows_all2 list_all2_lengthD)
next
  fix i assume i: "i < length (workflows data)"
  let ?w = "workflows data ! i" and ?w' = "workflows data' ! i"
  from patch_document_workflow_nth(2)[OF assms i] obtain c1 c2 where
    pw: "patch_workflow mapping workflow_slug ?w c1 = Inr (?w', c2)" by blast
  from patch_workflow_frame[OF pw]
  show "is_dict ?w" and "is_dict ?w'"
    and "?w' = ?w \<or>
         assigned ''nodes'' (fields ?w) (fields ?w') \<and>
         map_of (fields ?w) ''nodes'' = Some (JArr (nodes_of ?w)) \<and>
         map_of (fields ?w') ''nodes'' = Some (JArr (nodes_of ?w'))"
    by blast+
  have l: "list_all2 (\<lambda>n n'. \<exists>c1 c2. patch_node mapping workflow_slug n c1 = Inr (n', c2))
             (nodes_of ?w) (nodes_of ?w')"
    by (rule patch_workflow_nodes[OF pw])
  then show "length (nodes_of ?w') = length (nodes_of ?w)" by (simp add: list_all2_lengthD)
  fix j assume j: "j < length (nodes_of ?w)"
  let ?n = "nodes_of ?w ! j" and ?n' = "nodes_of ?w' ! j"
  from list_all2_nthD[OF l j] obtain c3 c4 where
    pn: "patch_node mapping workflow_slug ?n c3 = Inr (?n', c4)" by blast
  from patch_node_frame[OF pn]
  show "is_dict ?n" and "is_dict ?n'"
    and "?n' = ?n \<or>
         code_type ?n \<and> assigned ''parameters'' (fields ?n) (fields ?n') \<and>
         (\<exists>ps'. map_of (fields ?n') ''parameters'' = Some (JObj ps') \<and>
                assigned ''jsCode'' (params_of (fields ?n)) ps')"
    by blast+
qed

theorem structure_preserved_witness:
  "patch_document ex_mapping ''slug'' ex_data
     = Inr (ex_out, \<lparr>total_patched = 1, total_skipped = 1\<rparr>) \<and>
   is_list ex_out = is_list ex_data \<and>
   length (workflows ex_out) = length (workflows ex_data) \<and>
   length (nodes_of (workflows ex_out ! 0)) = length (nodes_of (workflows ex_data ! 0)) \<and>
   nodes_of (workflows ex_data ! 0) ! 0 = JObj ex_mapped \<and>
   nodes_of (workflows ex_out ! 0) ! 0 = JObj ex_patched \<and>
   assigned ''parameters'' ex_mapped ex_patched"
proof -
  note t = structure_preserved[OF ex_patch_eval]
  have i: "0 < length (workflows ex_data)" by (simp add: ex_workflows)
  have j: "0 < length (nodes_of (workflows ex_data ! 0))" by (simp add: ex_nodes)
  have n: "nodes_of (workflows ex_data ! 0) ! 0 = JObj ex_mapped" by (simp add: ex_nodes)
  have n': "nodes_of (workflows ex_out ! 0) ! 0 = JObj ex_patched" by (simp add: ex_out_nodes)
  have ne: "JObj ex_patched \<noteq> JObj ex_mapped" by (simp add: ex_patched_def ex_mapped_def)
  from t have 1: "is_list ex_out = is_list ex_data"
    and 2: "length (workflows ex_out) = length (workflows ex_data)" by blast+
  from t i have 3: "length (nodes_of (workflows ex_out ! 0)) = length (nodes_of (workflows ex_data ! 0))"
    by blast
  from t i j have "nodes_of (workflows ex_out ! 0) ! 0 = nodes_of (workflows ex_data ! 0) ! 0 \<or>
         code_type (nodes_of (workflows ex_data ! 0) ! 0) \<and>
         assigned ''parameters'' (fields (nodes_of (workflows ex_data ! 0) ! 0))
           (fields (nodes_of (workflows ex_out ! 0) ! 0)) \<and>
         (\<exists>ps'. map_of (fields (nodes_of (workflows ex_out ! 0) ! 0)) ''parameters'' = Some (JObj ps') \<and>
            assigned ''jsCode'' (params_of (fields (nodes_of (workflows ex_data ! 0) ! 0))) ps')"
    by blast
  with n n' ne have 4: "assigned ''parameters'' ex_mapped ex_patched" by simp
  from ex_patch_eval 1 2 3 n n' 4 show ?thesis by blast
qed

text \<open>
  C3. In a run of the patcher that completes, \<^verbatim>\<open>total_patched + total_skipped\<close> is the
  number of code-type nodes over all workflows of the input document, whether the
  document is a single workflow object or an array of workflows; on a node of any other
  type an iteration of the loop returns the node and both counters as they were.
\<close>

theorem counters_cover_code_nodes:
  assumes "patch_document mapping workflow_slug data = Inr (data', c)"
  shows "total_patched c + total_skipped c
           = (\<Sum>w\<leftarrow>document_workflows data. int (length (filter code_type (nodes_of w)))) \<and>
         (\<forall>d c0. \<not> code_type (JObj d) \<longrightarrow>
            patch_node mapping workflow_slug (JObj d) c0 = Inr (JObj d, c0))"
proof -
  have "total_patched c + total_skipped c
           = (\<Sum>w\<leftarrow>workflows data. int (length (filter code_type (nodes_of w))))"
    using patch_workflows_counters[OF patch_document_Inr(1)[OF assms]] by simp
  then show ?thesis
    by (simp add: patch_node_noncode patch_document_shape(1)[OF assms])
qed

theorem counters_cover_code_nodes_witness:
  "patch_document ex_mapping ''slug'' ex_data
     = Inr (ex_out, \<lparr>total_patched = 1, total_skipped = 1\<rparr>) \<and>
   (\<Sum>w\<leftarrow>document_workflows ex_data. int (length (filter code_type (nodes_of w)))) = 2 \<and>
   patch_document ex_mapping ''slug'' ex_single
     = Inr (ex_single_out, \<lparr>total_patched = 1, total_skipped = 1\<rparr>) \<and>
   document_workflows ex_single = [ex_single] \<and>
   int (length (filter code_type (nodes_of ex_single))) = 2 \<and>
   patch_node ex_mapping ''slug'' (JObj ex_other) \<lparr>total_patched = 5, total_skipped = 7\<rparr>
     = Inr (JObj ex_other, \<lparr>total_patched = 5, total_skipped = 7\<rparr>)"
proof -
  note t = counters_cover_code_nodes[OF ex_patch_eval]
  from t have 1: "(\<Sum>w\<leftarrow>document_workflows ex_data. int (length (filter code_type (nodes_of w)))) = 2"
    by simp
  have "\<not> code_type (JObj ex_other)" by (simp add: code_type_def ex_other_def)
  with t have 2: "patch_node ex_mapping ''slug'' (JObj ex_other) \<lparr>total_patched = 5, total_skipped = 7\<rparr>
     = Inr (JObj ex_other, \<lparr>total_patched = 5, total_skipped = 7\<rparr>)" by blast
  note t' = counters_cover_code_nodes[OF ex_single_eval]
  have s: "document_workflows ex_single = [ex_single]"
    by (simp add: document_workflows_def ex_single_def)
  from t' have 3: "int (length (filter code_type (nodes_of ex_single))) = 2"
    by (simp add: s)
  from ex_patch_eval 1 ex_single_eval s 3 2 show ?thesis by blast
qed

text \<open>
  C4. On a code-type node whose \<^verbatim>\<open>id\<close> is missing, is empty (any value that Python
  counts as false), or is a string, number or boolean that is not a key of the file
  mapping, an iteration of the loop adds one to \<^verbatim>\<open>total_skipped\<close>, leaves
  \<^verbatim>\<open>total_patched\<close> alone and returns the node as it was; in the output document of a
  completed run the node is the input node.
\<close>

theorem unmapped_code_node_skipped:
  assumes "map_of d ''type'' = Some (JStr ''n8n-nodes-base.code'')"
    and "map_of d ''id'' = None \<or> (\<exists>v. map_of d ''id'' = Some v \<and> \<not> truthy v)
         \<or> (\<exists>v. map_of d ''id'' = Some v \<and> \<not> is_list v \<and> \<not> is_dict v \<and>
                (\<forall>k. v = JStr k \<longrightarrow> map_of mapping k = None))"
  shows "patch_node mapping workflow_slug (JObj d) c
           = Inr (JObj d, c\<lparr>total_skipped := total_skipped c + 1\<rparr>) \<and>
         (\<forall>data data' c' i j.
            patch_document mapping workflow_slug data = Inr (data', c') \<longrightarrow>
            i < length (workflows data) \<longrightarrow> j < length (nodes_of (workflows data ! i)) \<longrightarrow>
            nodes_of (workflows data ! i) ! j = JObj d \<longrightarrow>
            nodes_of (workflows data' ! i) ! j = JObj d)"
proof (intro conjI allI impI)
  show "patch_node mapping workflow_slug (JObj d) c
           = Inr (JObj d, c\<lparr>total_skipped := total_skipped c + 1\<rparr>)"
    using assms by (rule patch_node_skip)
next
  fix data data' c' i j
  assume run: "patch_document mapping workflow_slug data = Inr (data', c')"
    and i: "i < length (workflows data)" and j: "j < length (nodes_of (workflows data ! i))"
    and n: "nodes_of (workflows data ! i) ! j = JObj d"
  from patch_document_node_nth(2)[OF run i j] n obtain c1 c2 where
    "patch_node mapping workflow_slug (JObj d) c1 = Inr (nodes_of (workflows data' ! i) ! j, c2)"
    by auto
  moreover have "patch_node mapping workflow_slug (JObj d) c1
           = Inr (JObj d, c1\<lparr>total_skipped := total_skipped c1 + 1\<rparr>)"
    using assms by (rule patch_node_skip)
  ultimately show "nodes_of (workflows data' ! i) ! j = JObj d" by simp
qed

theorem unmapped_code_node_skipped_witness:
  "map_of ex_unmapped ''type'' = Some (JStr ''n8n-nodes-base.code'') \<and>
   map_of ex_unmapped ''id'' = Some (JStr ex_id2) \<and> map_of ex_mapping ex_id2 = None \<and>
   patch_node ex_mapping ''slug'' (JObj ex_unmapped) \<lparr>total_patched = 0, total_skipped = 0\<rparr>
     = Inr (JObj ex_unmapped, \<lparr>total_patched = 0, total_skipped = 1\<rparr>) \<and>
   nodes_of (workflows ex_out ! 0) ! 1 = JObj ex_unmapped \<and>
   patch_node ex_mapping ''slug'' (JObj [(''type'', ex_code)]) \<lparr>total_patched = 0, total_skipped = 0\<rparr>
     = Inr (JObj [(''type'', ex_code)], \<lparr>total_patched = 0, total_skipped = 1\<rparr>) \<and>
   patch_node ex_mapping ''slug'' (JObj [(''type'', ex_code), (''id'', JStr [])])
       \<lparr>total_patched = 0, total_skipped = 0\<rparr>
     = Inr (JObj [(''type'', ex_code), (''id'', JStr [])], \<lparr>total_patched = 0, total_skipped = 1\<rparr>)"
proof -
  have a: "map_of ex_unmapped ''type'' = Some (JStr ''n8n-nodes-base.code'')"
    by (simp add: ex_unmapped_def ex_code_def)
  have b: "map_of ex_unmapped ''id'' = Some (JStr ex_id2)" by (simp add: ex_unmapped_def)
  have c: "map_of ex_mapping ex_id2 = None" by (simp add: ex_mapping_def ex_id1_def ex_id2_def)
  have h: "map_of ex_unmapped ''id'' = None \<or> (\<exists>v. map_of ex_unmapped ''id'' = Some v \<and> \<not> truthy v)
         \<or> (\<exists>v. map_of ex_unmapped ''id'' = Some v \<and> \<not> is_list v \<and> \<not> is_dict v \<and>
                (\<forall>k. v = JStr k \<longrightarrow> map_of ex_mapping k = None))"
    using b c by simp
  note t = unmapped_code_node_skipped[OF a h, of "''slug''" "\<lparr>total_patched = 0, total_skipped = 0\<rparr>"]
  from t have 1: "patch_node ex_mapping ''slug'' (JObj ex_unmapped) \<lparr>total_patched = 0, total_skipped = 0\<rparr>
     = Inr (JObj ex_unmapped, \<lparr>total_patched = 0, total_skipped = 1\<rparr>)" by simp
  have i: "0 < length (workflows ex_data)" by (simp add: ex_workflows)
  have j: "1 < length (nodes_of (workflows ex_data ! 0))" by (simp add: ex_nodes)
  have n: "nodes_of (workflows ex_data ! 0) ! 1 = JObj ex_unmapped" by (simp add: ex_nodes)
  from t ex_patch_eval i j n have 2: "nodes_of (workflows ex_out ! 0) ! 1 = JObj ex_unmapped" by blast
  have "patch_node ex_mapping ''slug'' (JObj [(''type'', ex_code)]) \<lparr>total_patched = 0, total_skipped = 0\<rparr>
     = Inr (JObj [(''type'', ex_code)], \<lparr>total_patched = 0, total_skipped = 0\<rparr>\<lparr>total_skipped := total_skipped \<lparr>total_patched = 0, total_skipped = 0\<rparr> + 1\<rparr>)"
    using unmapped_code_node_skipped[of "[(''type'', ex_code)]" ex_mapping "''slug''" "\<lparr>total_patched = 0, total_skipped = 0\<rparr>"]
    by (simp add: ex_code_def)
  then have 3: "patch_node ex_mapping ''slug'' (JObj [(''type'', ex_code)]) \<lparr>total_patched = 0, total_skipped = 0\<rparr>
     = Inr (JObj [(''type'', ex_code)], \<lparr>total_patched = 0, total_skipped = 1\<rparr>)" by simp
  have "patch_node ex_mapping ''slug'' (JObj [(''type'', ex_code), (''id'', JStr [])]) \<lparr>total_patched = 0, total_skipped = 0\<rparr>
     = Inr (JObj [(''type'', ex_code), (''id'', JStr [])], \<lparr>total_patched = 0, total_skipped = 0\<rparr>\<lparr>total_skipped := total_skipped \<lparr>total_patched = 0, total_skipped = 0\<rparr> + 1\<rparr>)"
    using unmapped_code_node_skipped[of "[(''type'', ex_code), (''id'', JStr [])]" ex_mapping "''slug''" "\<lparr>total_patched = 0, total_skipped = 0\<rparr>"]
    by (simp add: ex_code_def)
  then have 4: "patch_node ex_mapping ''slug'' (JObj [(''type'', ex_code), (''id'', JStr [])]) \<lparr>total_patched = 0, total_skipped = 0\<rparr>
     = Inr (JObj [(''type'', ex_code), (''id'', JStr [])], \<lparr>total_patched = 0, total_skipped = 1\<rparr>)" by simp
  from a b c 1 2 3 4 show ?thesis by blast
qed

text \<open>
  C5 (amended). Let the JS directory path hold no glob metacharacter (\<^verbatim>\<open>*\<close>, \<^verbatim>\<open>?\<close>,
  \<^verbatim>\<open>[\<close>), and let the entry names of the directory hold no slash. The mapping built
  from it has distinct keys, and it maps a token to a name exactly when some entry of
  the listing of that directory, a file or a sub-directory, that does not begin with a
  dot ends with two underscores, that token of 36 hexadecimal digits and hyphens, and
  \<^verbatim>\<open>.js\<close>; the name is then the last such entry in listing order. Entries outside the
  convention and hidden entries contribute nothing. The directory listed is the path
  without the slashes at its end, which is the path itself when it ends with none.
\<close>

theorem mapping_builder_entries:
  assumes "\<not> has_magic js_dir"
    and "\<forall>name\<in>set (scandir fs (glob_dirname js_dir)). CHR ''/'' \<notin> set name"
  shows "map_of (build_mapping (glob_js fs js_dir) []) node_id =
           (case filter (\<lambda>name. \<not> ishidden name \<and> uuid_js_token name = Some node_id)
                   (scandir fs (glob_dirname js_dir)) of
              [] \<Rightarrow> None
            | x # xs \<Rightarrow> Some (last (x # xs))) \<and>
         distinct (map fst (build_mapping (glob_js fs js_dir) [])) \<and>
         (uuid_js_token name = Some g \<longleftrightarrow>
            length g = 36 \<and> list_all uuid_char g \<and> (\<exists>pre. name = pre @ ''__'' @ g @ ''.js'')) \<and>
         (js_dir \<noteq> [] \<and> last js_dir \<noteq> CHR ''/'' \<longrightarrow> glob_dirname js_dir = js_dir)"
proof (intro conjI impI)
  show "map_of (build_mapping (glob_js fs js_dir) []) node_id =
           (case filter (\<lambda>name. \<not> ishidden name \<and> uuid_js_token name = Some node_id)
                   (scandir fs (glob_dirname js_dir)) of
              [] \<Rightarrow> None
            | x # xs \<Rightarrow> Some (last (x # xs)))"
    unfolding glob_js_plain[OF assms(1)] using assms(2) by (rule scan_lookup)
  show "distinct (map fst (build_mapping (glob_js fs js_dir) []))"
    by (rule build_mapping_distinct) simp
  show "uuid_js_token name = Some g \<longleftrightarrow>
            length g = 36 \<and> list_all uuid_char g \<and> (\<exists>pre. name = pre @ ''__'' @ g @ ''.js'')"
    by (rule uuid_js_token_Some)
next
  assume "js_dir \<noteq> [] \<and> last js_dir \<noteq> CHR ''/''"
  then show "glob_dirname js_dir = js_dir" by (simp add: glob_dirname_plain)
qed

theorem mapping_builder_entries_witness:
  "\<not> has_magic ''js'' \<and> glob_dirname ''js'' = ''js'' \<and>
   scandir ex_fs ''js'' = [''old__11111111-1111-1111-1111-111111111111.js'', ex_file, ex_hidden,
                          ''notes.txt'', ''x.js''] \<and>
   map_of (build_mapping (glob_js ex_fs ''js'') []) ex_id1 = Some ex_file \<and>
   map_of (build_mapping (glob_js ex_fs ''js'') []) ex_id2 = None \<and>
   distinct (map fst (build_mapping (glob_js ex_fs ''js'') []))"
proof -
  have l: "scandir ex_fs ''js'' = [''old__11111111-1111-1111-1111-111111111111.js'', ex_file, ex_hidden,
                       ''notes.txt'', ''x.js'']"
    by (simp add: ex_fs_def ex_listing_def)
  have a: "\<forall>name\<in>set (scandir ex_fs (glob_dirname ''js'')). CHR ''/'' \<notin> set name"
    by (simp add: ex_dirname l ex_file_def ex_hidden_def)
  have ne: "ex_id1 \<noteq> ex_id2" by (simp add: ex_id1_def ex_id2_def)
  have h: "ishidden ex_hidden" "\<not> ishidden ex_file"
    "\<not> ishidden ''old__11111111-1111-1111-1111-111111111111.js''"
    by (simp_all add: ishidden_def ex_hidden_def ex_file_def)
  from mapping_builder_entries[where fs=ex_fs and js_dir="''js''" and node_id=ex_id1, OF ex_dirname(2) a]
  have 1: "map_of (build_mapping (glob_js ex_fs ''js'') []) ex_id1 = Some ex_file"
    by (simp add: ex_dirname l ex_tokens h ne)
  from mapping_builder_entries[where fs=ex_fs and js_dir="''js''" and node_id=ex_id2, OF ex_dirname(2) a]
  have 2: "map_of (build_mapping (glob_js ex_fs ''js'') []) ex_id2 = None"
    using ne by (simp add: ex_dirname l ex_tokens h)
  from mapping_builder_entries[where fs=ex_fs and js_dir="''js''", OF ex_dirname(2) a]
  have 3: "distinct (map fst (build_mapping (glob_js ex_fs ''js'') []))" by blast
  from ex_dirname l 1 2 3 show ?thesis by blast
qed

text \<open>
  The claim as first stated gives an entry to every file of the directory that follows
  the naming convention, and to nothing else. Three inputs refute it. A hidden file
  follows the convention and gets no entry, because \<^verbatim>\<open>glob\<close> does not let \<^verbatim>\<open>*\<close> match a
  leading dot. For the directory \<^verbatim>\<open>j[s]\<close>, which holds no file of the convention,
  \<^verbatim>\<open>glob\<close> reads the name as a pattern, scans the directory \<^verbatim>\<open>js\<close> beside it and maps a
  file that is no child of \<^verbatim>\<open>j[s]\<close>. And a sub-directory named after the convention,
  which is no file, gets an entry.
\<close>

theorem hidden_file_not_mapped_counterexample:
  "scandir ex_fs ''js'' = [''old__11111111-1111-1111-1111-111111111111.js'', ex_file, ex_hidden,
                          ''notes.txt'', ''x.js''] \<and>
   uuid_js_token ex_hidden = Some ex_id2 \<and>
   map_of (build_mapping (glob_js ex_fs ''js'') []) ex_id2 = None \<and>
   scandir ex_magic_fs ''j[s]'' = [''notes.txt''] \<and>
   map_of (build_mapping (glob_js ex_magic_fs ''j[s]'') []) ex_id1 = Some ex_file \<and>
   scandir ex_subdir_fs ''js'' = [ex_subdir] \<and>
   \<not> path_isfile ex_subdir_fs (posix_join ''js'' ex_subdir) \<and>
   map_of (build_mapping (glob_js ex_subdir_fs ''js'') []) ex_id3 = Some ex_subdir"
proof -
  have 1: "scandir ex_fs ''js'' = [''old__11111111-1111-1111-1111-111111111111.js'', ex_file,
                                  ex_hidden, ''notes.txt'', ''x.js'']"
    by (simp add: ex_fs_def ex_listing_def)
  have 2: "map_of (build_mapping (glob_js ex_fs ''js'') []) ex_id2 = None"
    by (simp add: ex_mapping_eval ex_mapping_def ex_id1_def ex_id2_def)
  have 3: "scandir ex_magic_fs ''j[s]'' = [''notes.txt'']"
    by (simp add: ex_magic_fs_def ex_fs_def)
  have 4: "map_of (build_mapping (glob_js ex_magic_fs ''j[s]'') []) ex_id1 = Some ex_file"
    by (simp add: ex_magic_fs_def ex_fs_def glob_defs ex_file_def ex_id1_def)
  have 5: "scandir ex_subdir_fs ''js'' = [ex_subdir]"
    by (simp add: ex_subdir_fs_def ex_fs_def)
  have 6: "\<not> path_isfile ex_subdir_fs (posix_join ''js'' ex_subdir)"
    by (simp add: ex_subdir_fs_def ex_fs_def posix_join_def ex_subdir_def)
  have 7: "map_of (build_mapping (glob_js ex_subdir_fs ''js'') []) ex_id3 = Some ex_subdir"
    by (simp add: ex_subdir_fs_def ex_fs_def glob_defs ex_subdir_def ex_id3_def)
  from 1 ex_tokens(3) 2 3 4 5 6 7 show ?thesis by blast
qed

text \<open>
  C6. Let a first run write the document \<open>data'\<close> to the file \<open>out\<close>. A second run
  whose workflow path is \<open>out\<close>, which reads \<open>data'\<close> back from it, for which the glob
  of the same JS directory returns the same paths, with the same slug, and which can
  write \<open>out\<close> as the first run could, ends with status 0 and writes \<open>data'\<close> to \<open>out\<close>
  again, and nothing else.
\<close>

theorem pipeline_idempotent:
  assumes "written (main fs argv) = [(out, data')]"
    and "path_exists fs' out" and "path_isdir fs' (argv ! 2)"
    and "glob_js fs' (argv ! 2) = glob_js fs (argv ! 2)"
    and "load_json fs' out = Inr data'"
    and "makedirs fs' ''tmp'' = None" and "write_json fs' out = None"
  shows "written (main fs' [prog', out, argv ! 2, argv ! 3]) = [(out, data')] \<and>
         exit_status (main fs' [prog', out, argv ! 2, argv ! 3]) = 0"
proof -
  let ?m = "build_mapping (glob_js fs (argv ! 2)) []"
  from main_written_D[OF assms(1)] obtain data c where
    m: "?m \<noteq> []" and p: "patch_document ?m (argv ! 3) data = Inr (data', c)"
    and out: "out = out_path (argv ! 3)" by blast
  have p': "patch_document ?m (argv ! 3) data' = Inr (data', c)"
    by (rule patch_document_again[OF p])
  let ?argv = "[prog', out, argv ! 2, argv ! 3]"
  have "main fs' ?argv =
     \<lparr>events = [ListDir (?argv ! 2), ReadFile (?argv ! 1), MakeDirs ''tmp'',
                WriteFile (out_path (?argv ! 3)) data',
                Stdout (''Patched code nodes: '' @ str_int (total_patched c)
                        @ '', skipped: '' @ str_int (total_skipped c)),
                Stdout (''Wrote: '' @ out_path (?argv ! 3))],
      exit_status = 0\<rparr>"
    using assms(2,3,5,6,7) m p' by (intro main_success) (simp_all add: assms(4) out)
  then show ?thesis by (simp add: written_def out)
qed

theorem pipeline_idempotent_witness:
  "written (main ex_fs ex_argv) = [(''tmp/slug.raw.externalized.json'', ex_out)] \<and>
   path_exists ex_fs2 ''tmp/slug.raw.externalized.json'' \<and> path_isdir ex_fs2 ''js'' \<and>
   glob_js ex_fs2 ''js'' = glob_js ex_fs ''js'' \<and>
   load_json ex_fs2 ''tmp/slug.raw.externalized.json'' = Inr ex_out \<and>
   makedirs ex_fs2 ''tmp'' = None \<and> write_json ex_fs2 ''tmp/slug.raw.externalized.json'' = None \<and>
   written (main ex_fs2 [''patch_workflow_use_external_js.py'', ''tmp/slug.raw.externalized.json'', ''js'', ''slug''])
     = [(''tmp/slug.raw.externalized.json'', ex_out)] \<and>
   exit_status (main ex_fs2 [''patch_workflow_use_external_js.py'', ''tmp/slug.raw.externalized.json'', ''js'', ''slug'']) = 0"
proof -
  have o: "out_path ''slug'' = ''tmp/slug.raw.externalized.json''"
    by (simp add: out_path_def posix_join_def)
  have pe: "path_exists ex_fs ''wf.json''" "path_isdir ex_fs ''js''"
    "load_json ex_fs ''wf.json'' = Inr ex_data" "makedirs ex_fs ''tmp'' = None"
    "write_json ex_fs ''tmp/slug.raw.externalized.json'' = None" "ex_mapping \<noteq> []"
    by (simp_all add: ex_fs_def ex_mapping_def)
  have a: "written (main ex_fs ex_argv) = [(''tmp/slug.raw.externalized.json'', ex_out)]"
    by (simp add: main_def Let_def ex_argv_def ex_mapping_eval ex_patch_eval written_def o pe)
  have b: "path_exists ex_fs2 ''tmp/slug.raw.externalized.json''" "path_isdir ex_fs2 (ex_argv ! 2)"
    by (simp_all add: ex_fs2_def ex_fs_def ex_argv_def)
  have g: "glob_js ex_fs2 (ex_argv ! 2) = glob_js ex_fs (ex_argv ! 2)"
    by (simp add: ex_fs2_def glob_js_update)
  have c: "load_json ex_fs2 ''tmp/slug.raw.externalized.json'' = Inr ex_out"
    "makedirs ex_fs2 ''tmp'' = None" "write_json ex_fs2 ''tmp/slug.raw.externalized.json'' = None"
    by (simp_all add: ex_fs2_def ex_fs_def)
  from pipeline_idempotent[OF a b g c, of "''patch_workflow_use_external_js.py''"] a b g c
  show ?thesis by (simp add: ex_argv_def)
qed

text \<open>
  C7. With an argument vector of any length but four (the script name and three
  arguments) the run prints the usage line on the error stream and exits with status 1;
  with a workflow path that does not exist, or else a JS directory that is no directory,
  it prints the message for that and exits with status 1. In each case that line is the
  only event of the run: no directory is listed, no file is read or written.
\<close>

theorem argument_and_path_errors:
  "(length argv \<noteq> 4 \<longrightarrow>
      main fs argv = \<lparr>events = [Stderr usage], exit_status = 1\<rparr>) \<and>
   (length argv = 4 \<and> \<not> path_exists fs (argv ! 1) \<longrightarrow>
      main fs argv =
        \<lparr>events = [Stderr (''Missing workflow json: '' @ argv ! 1)], exit_status = 1\<rparr>) \<and>
   (length argv = 4 \<and> path_exists fs (argv ! 1) \<and> \<not> path_isdir fs (argv ! 2) \<longrightarrow>
      main fs argv =
        \<lparr>events = [Stderr (''Missing js dir: '' @ argv ! 2)], exit_status = 1\<rparr>)"
  by (simp add: main_def die_def Let_def)

theorem argument_and_path_errors_witness:
  "main ex_fs [''patch_workflow_use_external_js.py'', ''wf.json'', ''js'']
     = \<lparr>events = [Stderr usage], exit_status = 1\<rparr> \<and>
   main ex_fs [''patch_workflow_use_external_js.py'', ''nowhere.json'', ''js'', ''slug'']
     = \<lparr>events = [Stderr ''Missing workflow json: nowhere.json''], exit_status = 1\<rparr> \<and>
   main ex_fs [''patch_workflow_use_external_js.py'', ''wf.json'', ''nodir'', ''slug'']
     = \<lparr>events = [Stderr ''Missing js dir: nodir''], exit_status = 1\<rparr>"
  using argument_and_path_errors[of "[''patch_workflow_use_external_js.py'', ''wf.json'', ''js'']" ex_fs]
    argument_and_path_errors[of "[''patch_workflow_use_external_js.py'', ''nowhere.json'', ''js'', ''slug'']" ex_fs]
    argument_and_path_errors[of "[''patch_workflow_use_external_js.py'', ''wf.json'', ''nodir'', ''slug'']" ex_fs]
  by (simp add: ex_fs_def)

text \<open>
  C8 (amended). When the arguments are accepted, the JS directory path holds no glob
  metacharacter and no entry of the directory, file or sub-directory, follows the naming
  convention, the run lists the directory, prints the no-mapped-files message on the
  error stream and exits with status 1; it reads no workflow file and writes no file.
\<close>

theorem no_mapped_files_error:
  assumes "length argv = 4" and "path_exists fs (argv ! 1)" and "path_isdir fs (argv ! 2)"
    and "\<not> has_magic (argv ! 2)"
    and "\<forall>name\<in>set (scandir fs (glob_dirname (argv ! 2))).
           CHR ''/'' \<notin> set name \<and> uuid_js_token name = None"
  shows "main fs argv =
           \<lparr>events = [ListDir (argv ! 2),
                      Stderr (''No node-id mapped js files found in '' @ argv ! 2)],
            exit_status = 1\<rparr> \<and>
         written (main fs argv) = []"
proof -
  have "build_mapping (glob_js fs (argv ! 2)) [] = []"
    unfolding glob_js_plain[OF assms(4)] using assms(5) by (rule scan_no_token)
  with assms(1,2,3) have "main fs argv =
           \<lparr>events = [ListDir (argv ! 2),
                      Stderr (''No node-id mapped js files found in '' @ argv ! 2)],
            exit_status = 1\<rparr>"
    by (simp add: main_def die_def Let_def)
  then show ?thesis by (simp add: written_def)
qed

theorem no_mapped_files_error_witness:
  "length ex_argv = 4 \<and> path_exists ex_empty_fs (ex_argv ! 1) \<and> path_isdir ex_empty_fs (ex_argv ! 2) \<and>
   \<not> has_magic (ex_argv ! 2) \<and> glob_dirname (ex_argv ! 2) = ''js'' \<and>
   scandir ex_empty_fs ''js'' = [''notes.txt'', ''x.js''] \<and>
   uuid_js_token ''notes.txt'' = None \<and> uuid_js_token ''x.js'' = None \<and>
   main ex_empty_fs ex_argv =
     \<lparr>events = [ListDir ''js'', Stderr ''No node-id mapped js files found in js''],
      exit_status = 1\<rparr> \<and>
   written (main ex_empty_fs ex_argv) = []"
proof -
  have a: "length ex_argv = 4" "path_exists ex_empty_fs (ex_argv ! 1)" "path_isdir ex_empty_fs (ex_argv ! 2)"
    "\<not> has_magic (ex_argv ! 2)"
    by (simp_all add: ex_argv_def ex_empty_fs_def ex_fs_def ex_dirname)
  have g: "glob_dirname (ex_argv ! 2) = ''js''" by (simp add: ex_argv_def ex_dirname)
  have s: "scandir ex_empty_fs ''js'' = [''notes.txt'', ''x.js'']"
    by (simp add: ex_empty_fs_def)
  have t: "uuid_js_token ''notes.txt'' = None" "uuid_js_token ''x.js'' = None"
    by (simp_all add: ex_tokens)
  have b: "\<forall>name\<in>set (scandir ex_empty_fs (glob_dirname (ex_argv ! 2))).
             CHR ''/'' \<notin> set name \<and> uuid_js_token name = None"
    by (simp add: g s t)
  from no_mapped_files_error[OF a b] a g s t show ?thesis by (simp add: ex_argv_def written_def)
qed

text \<open>
  The claim as first stated speaks of a JS directory without a file of the convention.
  Two inputs refute it. The directory \<^verbatim>\<open>j[s]\<close> holds one file, \<^verbatim>\<open>notes.txt\<close>; \<^verbatim>\<open>glob\<close>
  reads its name as a pattern and scans the directory \<^verbatim>\<open>js\<close> beside it, which holds a
  file of the convention, so the run goes on, ends with status 0 and writes the output
  file. And a directory that holds no file at all, only a sub-directory named after the
  convention, gives a mapping that is not empty: that run too ends with status 0 and
  writes the output file.
\<close>

theorem no_mapped_files_counterexample:
  "path_isdir ex_magic_fs ''j[s]'' \<and> scandir ex_magic_fs ''j[s]'' = [''notes.txt''] \<and>
   uuid_js_token ''notes.txt'' = None \<and>
   exit_status (main ex_magic_fs [''patch_workflow_use_external_js.py'', ''wf.json'', ''j[s]'', ''slug'']) = 0 \<and>
   written (main ex_magic_fs [''patch_workflow_use_external_js.py'', ''wf.json'', ''j[s]'', ''slug''])
     = [(''tmp/slug.raw.externalized.json'', ex_out)] \<and>
   scandir ex_subdir_fs ''js'' = [ex_subdir] \<and>
   \<not> path_isfile ex_subdir_fs (posix_join ''js'' ex_subdir) \<and>
   exit_status (main ex_subdir_fs ex_argv) = 0 \<and>
   written (main ex_subdir_fs ex_argv) = [(''tmp/slug.raw.externalized.json'', ex_data)]"
proof -
  have o: "out_path ''slug'' = ''tmp/slug.raw.externalized.json''"
    by (simp add: out_path_def posix_join_def)
  have 1: "path_isdir ex_magic_fs ''j[s]''" "scandir ex_magic_fs ''j[s]'' = [''notes.txt'']"
    by (simp_all add: ex_magic_fs_def ex_fs_def)
  have m: "build_mapping (glob_js ex_magic_fs ''j[s]'') [] = ex_mapping"
    by (simp add: ex_magic_fs_def ex_fs_def glob_defs ex_file_def ex_id1_def ex_mapping_def)
  have pe: "path_exists ex_magic_fs ''wf.json''" "load_json ex_magic_fs ''wf.json'' = Inr ex_data"
    "makedirs ex_magic_fs ''tmp'' = None"
    "write_json ex_magic_fs ''tmp/slug.raw.externalized.json'' = None" "ex_mapping \<noteq> []"
    by (simp_all add: ex_magic_fs_def ex_fs_def ex_mapping_def)
  have r: "main ex_magic_fs [''patch_workflow_use_external_js.py'', ''wf.json'', ''j[s]'', ''slug''] =
     \<lparr>events = [ListDir ''j[s]'', ReadFile ''wf.json'', MakeDirs ''tmp'',
                WriteFile ''tmp/slug.raw.externalized.json'' ex_out,
                Stdout (''Patched code nodes: '' @ str_int 1 @ '', skipped: '' @ str_int 1),
                Stdout (''Wrote: '' @ ''tmp/slug.raw.externalized.json'')],
      exit_status = 0\<rparr>"
    by (simp add: main_def Let_def m ex_patch_eval o pe 1)
  have 2: "exit_status (main ex_magic_fs [''patch_workflow_use_external_js.py'', ''wf.json'', ''j[s]'', ''slug'']) = 0"
    "written (main ex_magic_fs [''patch_workflow_use_external_js.py'', ''wf.json'', ''j[s]'', ''slug''])
       = [(''tmp/slug.raw.externalized.json'', ex_out)]"
    by (simp_all add: r written_def)
  have 3: "scandir ex_subdir_fs ''js'' = [ex_subdir]"
    "\<not> path_isfile ex_subdir_fs (posix_join ''js'' ex_subdir)"
    by (simp_all add: ex_subdir_fs_def ex_fs_def posix_join_def ex_subdir_def)
  have m': "build_mapping (glob_js ex_subdir_fs ''js'') [] = [(ex_id3, ex_subdir)]"
    by (simp add: ex_subdir_fs_def ex_fs_def glob_defs ex_subdir_def ex_id3_def)
  have pe': "path_exists ex_subdir_fs ''wf.json''" "path_isdir ex_subdir_fs ''js''"
    "load_json ex_subdir_fs ''wf.json'' = Inr ex_data" "makedirs ex_subdir_fs ''tmp'' = None"
    "write_json ex_subdir_fs ''tmp/slug.raw.externalized.json'' = None"
    by (simp_all add: ex_subdir_fs_def ex_fs_def)
  have p': "patch_document [(ex_id3, ex_subdir)] ''slug'' ex_data
              = Inr (ex_data, \<lparr>total_patched = 0, total_skipped = 2\<rparr>)"
    by (simp add: ex_defs ex_id3_def ex_subdir_def patch_document_def workflows_def
        patch_workflow_def store_nodes_def patch_node_def skipped_def)
  have r': "main ex_subdir_fs ex_argv =
     \<lparr>events = [ListDir ''js'', ReadFile ''wf.json'', MakeDirs ''tmp'',
                WriteFile ''tmp/slug.raw.externalized.json'' ex_data,
                Stdout (''Patched code nodes: '' @ str_int 0 @ '', skipped: '' @ str_int 2),
                Stdout (''Wrote: '' @ ''tmp/slug.raw.externalized.json'')],
      exit_status = 0\<rparr>"
    by (simp add: main_def Let_def ex_argv_def m' p' o pe')
  have 4: "exit_status (main ex_subdir_fs ex_argv) = 0"
    "written (main ex_subdir_fs ex_argv) = [(''tmp/slug.raw.externalized.json'', ex_data)]"
    by (simp_all add: r' written_def)
  from 1 ex_tokens(5) 2 3 4 show ?thesis by blast
qed

text \<open>
  C9 (amended). When the arguments are accepted, the mapping is not empty and the
  workflow file cannot be parsed, the exception of \<^verbatim>\<open>json.load\<close> is caught nowhere: the
  run ends with status 1 after the interpreter's traceback, the script prints no line
  of its own on the error stream, and no file is written.
\<close>

theorem malformed_json_uncaught:
  assumes "length argv = 4" and "path_exists fs (argv ! 1)" and "path_isdir fs (argv ! 2)"
    and "build_mapping (glob_js fs (argv ! 2)) [] \<noteq> []"
    and "load_json fs (argv ! 1) = Inl e"
  shows "main fs argv =
           \<lparr>events = [ListDir (argv ! 2), ReadFile (argv ! 1), Uncaught e], exit_status = 1\<rparr>"
  using assms by (simp add: main_def uncaught_def Let_def)

theorem malformed_json_uncaught_witness:
  "length ex_argv = 4 \<and> path_exists ex_bad_fs (ex_argv ! 1) \<and> path_isdir ex_bad_fs (ex_argv ! 2) \<and>
   build_mapping (glob_js ex_bad_fs (ex_argv ! 2)) [] = ex_mapping \<and>
   load_json ex_bad_fs (ex_argv ! 1) = Inl JSONDecodeError \<and>
   main ex_bad_fs ex_argv =
     \<lparr>events = [ListDir ''js'', ReadFile ''wf.json'', Uncaught JSONDecodeError], exit_status = 1\<rparr>"
proof -
  have a: "length ex_argv = 4" "path_exists ex_bad_fs (ex_argv ! 1)" "path_isdir ex_bad_fs (ex_argv ! 2)"
    by (simp_all add: ex_argv_def ex_bad_fs_def ex_fs_def)
  have m: "build_mapping (glob_js ex_bad_fs (ex_argv ! 2)) [] = ex_mapping"
    by (simp add: ex_argv_def ex_bad_fs_def glob_js_update ex_mapping_eval)
  then have b: "build_mapping (glob_js ex_bad_fs (ex_argv ! 2)) [] \<noteq> []"
    by (simp add: ex_mapping_def)
  have c: "load_json ex_bad_fs (ex_argv ! 1) = Inl JSONDecodeError" by (simp add: ex_bad_fs_def)
  from malformed_json_uncaught[OF a b c] a m c show ?thesis by (simp add: ex_argv_def)
qed

text \<open>
  The claim as first stated has the script print a one-line diagnostic, as \<^verbatim>\<open>die\<close> does
  for the other errors. On a malformed workflow file the run has no \<open>Stderr\<close> event at
  all; its only report is the uncaught exception.
\<close>

theorem malformed_json_one_line_counterexample:
  "exit_status (main ex_bad_fs ex_argv) = 1 \<and>
   \<not> (\<exists>msg. Stderr msg \<in> set (events (main ex_bad_fs ex_argv))) \<and>
   Uncaught JSONDecodeError \<in> set (events (main ex_bad_fs ex_argv))"
proof -
  have "main ex_bad_fs ex_argv =
     \<lparr>events = [ListDir ''js'', ReadFile ''wf.json'', Uncaught JSONDecodeError], exit_status = 1\<rparr>"
    by (simp add: main_def uncaught_def Let_def ex_argv_def ex_bad_fs_def glob_js_update
        ex_mapping_eval)
      (simp add: ex_fs_def ex_mapping_def)
  then show ?thesis by simp
qed

text \<open>
  C10. On a workflow dict without a \<^verbatim>\<open>nodes\<close> key the body of the outer loop raises
  nothing and returns the workflow and both counters as they were; in the output
  document of a completed run the workflow is the input workflow.
\<close>

theorem workflow_without_nodes_untouched:
  assumes "map_of d ''nodes'' = None"
  shows "patch_workflow mapping workflow_slug (JObj d) c = Inr (JObj d, c) \<and>
         (\<forall>data data' c' i.
            patch_document mapping workflow_slug data = Inr (data', c') \<longrightarrow>
            i < length (workflows data) \<longrightarrow> workflows data ! i = JObj d \<longrightarrow>
            workflows data' ! i = JObj d)"
proof (intro conjI allI impI)
  show "patch_workflow mapping workflow_slug (JObj d) c = Inr (JObj d, c)"
    using assms by (rule patch_workflow_no_nodes)
next
  fix data data' c' i
  assume run: "patch_document mapping workflow_slug data = Inr (data', c')"
    and i: "i < length (workflows data)" and w: "workflows data ! i = JObj d"
  from patch_document_workflow_nth(2)[OF run i] w obtain c1 c2 where
    "patch_workflow mapping workflow_slug (JObj d) c1 = Inr (workflows data' ! i, c2)" by auto
  then show "workflows data' ! i = JObj d"
    using assms by (simp add: patch_workflow_no_nodes)
qed

theorem workflow_without_nodes_untouched_witness:
  "map_of ex_bare ''nodes'' = None \<and>
   patch_workflow ex_mapping ''slug'' (JObj ex_bare) \<lparr>total_patched = 0, total_skipped = 0\<rparr>
     = Inr (JObj ex_bare, \<lparr>total_patched = 0, total_skipped = 0\<rparr>) \<and>
   workflows ex_data ! 1 = JObj ex_bare \<and>
   workflows ex_out ! 1 = JObj ex_bare"
proof -
  have a: "map_of ex_bare ''nodes'' = None" by (simp add: ex_bare_def)
  note t = workflow_without_nodes_untouched[OF a, of ex_mapping "''slug''" "\<lparr>total_patched = 0, total_skipped = 0\<rparr>"]
  have i: "1 < length (workflows ex_data)" by (simp add: ex_workflows)
  have w: "workflows ex_data ! 1 = JObj ex_bare" by (simp add: ex_data_def workflows_def)
  from t have 1: "patch_workflow ex_mapping ''slug'' (JObj ex_bare) \<lparr>total_patched = 0, total_skipped = 0\<rparr>
     = Inr (JObj ex_bare, \<lparr>total_patched = 0, total_skipped = 0\<rparr>)" by blast
  from t ex_patch_eval i w have 2: "workflows ex_out ! 1 = JObj ex_bare" by blast
  from a 1 w 2 show ?thesis by blast
qed

end
